theory Spec2Isabelle
  imports Complex_Main
begin

section \<open>Values exchanged with the outside world\<close>

text \<open>
  The server is a Node/Express program. Everything it stores, receives from the upstream
  market-data API and sends back is a JSON value. Numbers are IEEE doubles in the program;
  the only arithmetic the server does on them is \<open>Math.max\<close> and \<open>Math.min\<close>, which return
  one of their arguments, so finite doubles are modelled by the rationals they denote.
\<close>

datatype json =
    JNull
  | JBool bool
  | JNum rat
  | JStr string
  | JArr "json list"
  | JObj "(string \<times> json) list"

text \<open>JavaScript's truthiness, as tested by \<open>if (x)\<close> and by \<open>x || y\<close>.\<close>

fun truthy :: "json \<Rightarrow> bool" where
  "truthy JNull = False"
| "truthy (JBool b) = b"
| "truthy (JNum n) = (n \<noteq> 0)"
| "truthy (JStr s) = (s \<noteq> [])"
| "truthy (JArr xs) = True"
| "truthy (JObj fs) = True"

text \<open>
  The response of an upstream call that axios attaches to the error it throws
  (\<open>error.response\<close>), and a thrown JavaScript error: \<open>response\<close> is absent on a network
  failure and on every error that is not thrown by axios.
\<close>

record axios_response =
  status :: nat
  data :: json

record js_error =
  response :: "axios_response option"
  message :: string

text \<open>What the server sends: \<open>res.status(s).json(b)\<close>; \<open>res.json(b)\<close> sends status 200.\<close>

record http_response =
  res_status :: nat
  res_body :: json

definition res_json :: "json \<Rightarrow> http_response" where
  "res_json b = \<lparr>res_status = 200, res_body = b\<rparr>"

section \<open>Day-granularity dates\<close>

text \<open>
  \<open>new Date(t).toISOString().split('T')[0]\<close>: the UTC calendar date of the millisecond
  timestamp \<open>t\<close>. A timestamp outside the range of \<open>Date\<close> (more than 8.64e15 ms from the
  epoch) gives an invalid date, on which \<open>toISOString\<close> throws a RangeError: the result
  \<open>None\<close>. Years outside 0..9999 are printed with a sign and six digits.
\<close>

definition msPerDay :: int where
  "msPerDay = 86400000"

definition maxTime :: int where
  "maxTime = 8640000000000000"

definition valid_time :: "int \<Rightarrow> bool" where
  "valid_time t = (- maxTime \<le> t \<and> t \<le> maxTime)"

definition civil_from_days :: "int \<Rightarrow> int \<times> int \<times> int" where
  "civil_from_days z =
     (let z' = z + 719468;
          era = z' div 146097;
          doe = z' mod 146097;
          yoe = (doe - doe div 1460 + doe div 36524 - doe div 146096) div 365;
          y = yoe + era * 400;
          doy = doe - (365 * yoe + yoe div 4 - yoe div 100);
          mp = (5 * doy + 2) div 153;
          d = doy - (153 * mp + 2) div 5 + 1;
          m = (if mp < 10 then mp + 3 else mp - 9)
      in (if m \<le> 2 then y + 1 else y, m, d))"

definition digit :: "int \<Rightarrow> char" where
  "digit d = ''0123456789'' ! nat (d mod 10)"

fun pad :: "nat \<Rightarrow> int \<Rightarrow> string" where
  "pad 0 n = []"
| "pad (Suc k) n = pad k (n div 10) @ [digit n]"

definition year_string :: "int \<Rightarrow> string" where
  "year_string y =
     (if 0 \<le> y \<and> y \<le> 9999 then pad 4 y
      else (if y < 0 then ''-'' else ''+'') @ pad 6 (abs y))"

definition date_string :: "int \<Rightarrow> string" where
  "date_string t =
     (case civil_from_days (t div msPerDay) of
        (y, m, d) \<Rightarrow> year_string y @ ''-'' @ pad 2 m @ ''-'' @ pad 2 d)"

definition isoDate :: "int \<Rightarrow> string option" where
  "isoDate t = (if valid_time t then Some (date_string t) else None)"

section \<open>The candlestick transform\<close>

text \<open>
  The upstream \<open>market_chart\<close> response: two series of \<open>[timestamp, value]\<close> pairs.
\<close>

record market_chart =
  prices :: "(int \<times> rat) list"
  total_volumes :: "(int \<times> rat) list"

record candle =
  time :: string
  open_price :: rat
  high :: rat
  low :: rat
  close :: rat
  volume :: rat

text \<open>
  The two errors the loop body can throw: the RangeError of \<open>toISOString\<close> on an invalid
  date, and the TypeError of reading \<open>[1]\<close> of \<open>volumes[i]\<close> when that is undefined. Neither
  carries a \<open>response\<close>. The message texts are the engine's.
\<close>

definition invalid_time_error :: js_error where
  "invalid_time_error = \<lparr>response = None, message = ''Invalid time value''\<rparr>"

definition undefined_read_error :: js_error where
  "undefined_read_error =
     \<lparr>response = None, message = ''Cannot read properties of undefined (reading '1')''\<rparr>"

text \<open>
  The \<open>for\<close> loop of the history handler, from index \<open>i\<close> with the candles pushed so far.
  Each iteration first formats the date of \<open>prices[i]\<close>, then reads \<open>volumes[i][1]\<close>, and
  only for \<open>i > 0\<close> pushes a candle.
\<close>

function candlestick_loop ::
  "nat \<Rightarrow> (int \<times> rat) list \<Rightarrow> (int \<times> rat) list \<Rightarrow> candle list \<Rightarrow> js_error + candle list"
where
  "candlestick_loop i ps vs candlestickData =
     (if i < length ps then
        (case isoDate (fst (ps ! i)) of
           None \<Rightarrow> Inl invalid_time_error
         | Some timestamp \<Rightarrow>
             (if i < length vs then
                (let price = snd (ps ! i);
                     vol = snd (vs ! i)
                 in candlestick_loop (i + 1) ps vs
                      (if i > 0 then
                         (let prevPrice = snd (ps ! (i - 1))
                          in candlestickData @
                               [\<lparr>time = timestamp, open_price = prevPrice,
                                 high = max prevPrice price, low = min prevPrice price,
                                 close = price, volume = vol\<rparr>])
                       else candlestickData))
              else Inl undefined_read_error))
      else Inr candlestickData)"
  by pat_completeness auto
termination
  by (relation "measure (\<lambda>(i, ps, vs, acc). length ps - i)") auto

declare candlestick_loop.simps [simp del]

definition transform :: "market_chart \<Rightarrow> js_error + candle list" where
  "transform d = candlestick_loop 0 (prices d) (total_volumes d) []"

section \<open>The TTL cache\<close>

text \<open>
  The cache is an instance of the \<open>node-cache\<close> package, a dependency whose code is not
  part of the sources; the server only constructs it, with \<open>stdTTL: 300\<close>, and calls
  \<open>get\<close> and \<open>set\<close>. Times are in milliseconds, as \<open>Date.now()\<close> gives them.
\<close>

definition stdTTL :: int where
  "stdTTL = 300"

type_synonym ttl_cache = "string \<rightharpoonup> json \<times> int"

text \<open>
  Modelled from the spec: \<open>get\<close> of the TTL cache (the \<open>node-cache\<close> package is missing
  from the sources). A cache entry is a key, a value and its insertion time; it is
  visible to reads only while \<open>now - insertedAt < 300 s\<close>, an entry whose age is 300 s or
  more is absent, and absence is a normal return.
\<close>

definition cache_get :: "ttl_cache \<Rightarrow> string \<Rightarrow> int \<Rightarrow> json option" where
  "cache_get c key now =
     (case c key of
        None \<Rightarrow> None
      | Some (v, insertedAt) \<Rightarrow> if now - insertedAt < stdTTL * 1000 then Some v else None)"

text \<open>
  Modelled from the spec: \<open>set\<close> of the TTL cache (the \<open>node-cache\<close> package is missing
  from the sources). It stores the value with the current timestamp, overwriting any
  existing entry for that key.
\<close>

definition cache_set :: "ttl_cache \<Rightarrow> string \<Rightarrow> json \<Rightarrow> int \<Rightarrow> ttl_cache" where
  "cache_set c key v now = c(key \<mapsto> (v, now))"

section \<open>The rate limiter\<close>

definition rateLimit_windowMs :: int where
  "rateLimit_windowMs = 60 * 1000"

definition rateLimit_max :: nat where
  "rateLimit_max = 30"

definition rateLimit_message :: string where
  "rateLimit_message = ''Too many requests, please try again later.''"

text \<open>
  The middleware either answers the request itself or calls \<open>next()\<close>.
\<close>

datatype verdict = Rejected http_response | Next

text \<open>
  \<open>rateLimiter\<close> on the client address \<open>req.ip\<close> at \<open>Date.now() = now\<close>, on the map
  \<open>requestCounts\<close>. The array \<open>validRequests\<close> is the one stored in the map, so the final
  \<open>push\<close> changes the stored list. The lookup after \<open>has\<close>/\<open>set\<close> always finds a list; the
  \<open>None\<close> branch of the \<open>case\<close> is never taken.
\<close>

definition rateLimiter ::
  "string \<Rightarrow> int \<Rightarrow> (string \<rightharpoonup> int list) \<Rightarrow> verdict \<times> (string \<rightharpoonup> int list)"
where
  "rateLimiter ip now requestCounts =
     (let windowStart = now - rateLimit_windowMs;
          requestCounts1 =
            (if requestCounts ip = None then requestCounts(ip \<mapsto> []) else requestCounts);
          requests = (case requestCounts1 ip of Some r \<Rightarrow> r | None \<Rightarrow> []);
          validRequests = filter (\<lambda>t. t > windowStart) requests;
          requestCounts2 = requestCounts1(ip \<mapsto> validRequests)
      in if length validRequests \<ge> rateLimit_max
         then (Rejected \<lparr>res_status = 429,
                          res_body = JObj [(''error'', JStr rateLimit_message)]\<rparr>,
               requestCounts2)
         else (Next, requestCounts2(ip \<mapsto> validRequests @ [now])))"

section \<open>The upstream client and the route handlers\<close>

definition COINGECKO_API :: string where
  "COINGECKO_API = ''https://api.coingecko.com/api/v3''"

record upstream_req =
  url :: string
  params :: "(string \<times> json) list"

text \<open>
  The upstream API is the environment of the server. A call \<open>await axios.get(...)\<close>
  either returns the response data or throws; the handler resumes at some later time,
  which is the time the cache then stamps the entry with. The history endpoint reads
  the data as a \<open>market_chart\<close>; the other two pass it on as it is.
\<close>

type_synonym 'a reply = "(js_error + 'a) \<times> int"

record upstream =
  get_json :: "upstream_req \<Rightarrow> json reply"
  get_chart :: "upstream_req \<Rightarrow> market_chart reply"

text \<open>What a handler did besides answering, in order.\<close>

datatype effect = CacheGet string | UpstreamGet upstream_req | CacheSet string json

fun is_upstream :: "effect \<Rightarrow> bool" where
  "is_upstream (UpstreamGet r) = True"
| "is_upstream e = False"

fun is_cache_write :: "effect \<Rightarrow> bool" where
  "is_cache_write (CacheSet k v) = True"
| "is_cache_write e = False"

text \<open>
  \<open>if (cachedData)\<close>: the cached value counts only when it is truthy; \<open>undefined\<close> (no
  entry) is falsy.
\<close>

definition if_truthy :: "json option \<Rightarrow> json option" where
  "if_truthy cachedData =
     (case cachedData of None \<Rightarrow> None | Some v \<Rightarrow> if truthy v then Some v else None)"

text \<open>
  The \<open>catch\<close> block, the same in the three handlers but for the message:
  status \<open>error.response?.status || 500\<close>, details \<open>error.response?.data || error.message\<close>.
\<close>

definition catch_response :: "string \<Rightarrow> js_error \<Rightarrow> http_response" where
  "catch_response msg error =
     \<lparr>res_status =
        (case response error of
           Some r \<Rightarrow> if status r \<noteq> 0 then status r else 500
         | None \<Rightarrow> 500),
      res_body = JObj
        [(''error'', JStr msg),
         (''details'',
          (case response error of
             Some r \<Rightarrow> if truthy (data r) then data r else JStr (message error)
           | None \<Rightarrow> JStr (message error)))]\<rparr>"

definition markets_req :: upstream_req where
  "markets_req =
     \<lparr>url = COINGECKO_API @ ''/coins/markets'',
      params = [(''vs_currency'', JStr ''usd''), (''order'', JStr ''market_cap_desc''),
                (''per_page'', JNum 100), (''page'', JNum 1), (''sparkline'', JBool False)]\<rparr>"

definition cryptocurrencies_handler ::
  "upstream \<Rightarrow> int \<Rightarrow> ttl_cache \<Rightarrow> http_response \<times> ttl_cache \<times> effect list"
where
  "cryptocurrencies_handler up now c =
     (let cacheKey = ''cryptocurrencies'';
          cachedData = cache_get c cacheKey now
      in case if_truthy cachedData of
           Some v \<Rightarrow> (res_json v, c, [CacheGet cacheKey])
         | None \<Rightarrow>
             (case get_json up markets_req of
                (Inr d, t) \<Rightarrow>
                  (res_json d, cache_set c cacheKey d t,
                   [CacheGet cacheKey, UpstreamGet markets_req, CacheSet cacheKey d])
              | (Inl error, t) \<Rightarrow>
                  (catch_response ''Failed to fetch cryptocurrency data'' error, c,
                   [CacheGet cacheKey, UpstreamGet markets_req])))"

definition crypto_key :: "string \<Rightarrow> string" where
  "crypto_key coin_id = ''crypto_'' @ coin_id"

definition coin_req :: "string \<Rightarrow> upstream_req" where
  "coin_req coin_id =
     \<lparr>url = COINGECKO_API @ ''/coins/'' @ coin_id,
      params = [(''localization'', JBool False), (''tickers'', JBool False),
                (''market_data'', JBool True), (''community_data'', JBool False),
                (''developer_data'', JBool False)]\<rparr>"

definition cryptocurrency_handler ::
  "upstream \<Rightarrow> int \<Rightarrow> ttl_cache \<Rightarrow> string \<Rightarrow> http_response \<times> ttl_cache \<times> effect list"
where
  "cryptocurrency_handler up now c coin_id =
     (let cacheKey = crypto_key coin_id;
          cachedData = cache_get c cacheKey now
      in case if_truthy cachedData of
           Some v \<Rightarrow> (res_json v, c, [CacheGet cacheKey])
         | None \<Rightarrow>
             (case get_json up (coin_req coin_id) of
                (Inr d, t) \<Rightarrow>
                  (res_json d, cache_set c cacheKey d t,
                   [CacheGet cacheKey, UpstreamGet (coin_req coin_id), CacheSet cacheKey d])
              | (Inl error, t) \<Rightarrow>
                  (catch_response ''Failed to fetch cryptocurrency details'' error, c,
                   [CacheGet cacheKey, UpstreamGet (coin_req coin_id)])))"

definition history_key :: "string \<Rightarrow> string \<Rightarrow> string" where
  "history_key coin_id days = ''history_'' @ coin_id @ ''_'' @ days"

definition market_chart_req :: "string \<Rightarrow> string \<Rightarrow> upstream_req" where
  "market_chart_req coin_id days =
     \<lparr>url = COINGECKO_API @ ''/coins/'' @ coin_id @ ''/market_chart'',
      params = [(''vs_currency'', JStr ''usd''), (''days'', JStr days),
                (''interval'', JStr ''daily'')]\<rparr>"

text \<open>The candlestick array as the JSON value that is cached and sent.\<close>

definition candle_json :: "candle \<Rightarrow> json" where
  "candle_json k =
     JObj [(''time'', JStr (time k)), (''open'', JNum (open_price k)),
           (''high'', JNum (high k)), (''low'', JNum (low k)),
           (''close'', JNum (close k)), (''volume'', JNum (volume k))]"

text \<open>
  The history handler; \<open>days_q\<close> is \<open>req.query.days\<close>, with the default \<open>'30'\<close> when it is
  not given. An error thrown by the transform is caught by the same \<open>catch\<close> block as an
  upstream failure.
\<close>

definition history_handler ::
  "upstream \<Rightarrow> int \<Rightarrow> ttl_cache \<Rightarrow> string \<Rightarrow> string option \<Rightarrow>
   http_response \<times> ttl_cache \<times> effect list"
where
  "history_handler up now c coin_id days_q =
     (let days = (case days_q of None \<Rightarrow> ''30'' | Some d \<Rightarrow> d);
          cacheKey = history_key coin_id days;
          cachedData = cache_get c cacheKey now
      in case if_truthy cachedData of
           Some v \<Rightarrow> (res_json v, c, [CacheGet cacheKey])
         | None \<Rightarrow>
             (case get_chart up (market_chart_req coin_id days) of
                (Inr d, t) \<Rightarrow>
                  (case transform d of
                     Inr candlestickData \<Rightarrow>
                       (let out = JArr (map candle_json candlestickData)
                        in (res_json out, cache_set c cacheKey out t,
                            [CacheGet cacheKey, UpstreamGet (market_chart_req coin_id days),
                             CacheSet cacheKey out]))
                   | Inl error \<Rightarrow>
                       (catch_response ''Failed to fetch historical price data'' error, c,
                        [CacheGet cacheKey, UpstreamGet (market_chart_req coin_id days)]))
              | (Inl error, t) \<Rightarrow>
                  (catch_response ''Failed to fetch historical price data'' error, c,
                   [CacheGet cacheKey, UpstreamGet (market_chart_req coin_id days)])))"

section \<open>The server\<close>

datatype route =
    Cryptocurrencies
  | Cryptocurrency string
  | History string "string option"

record request =
  ip :: string
  route :: route

record server =
  requestCounts :: "string \<rightharpoonup> int list"
  cache :: ttl_cache

definition cacheKey_of :: "route \<Rightarrow> string" where
  "cacheKey_of r =
     (case r of
        Cryptocurrencies \<Rightarrow> ''cryptocurrencies''
      | Cryptocurrency coin_id \<Rightarrow> crypto_key coin_id
      | History coin_id days_q \<Rightarrow> history_key coin_id (case days_q of None \<Rightarrow> ''30'' | Some d \<Rightarrow> d))"

definition handler ::
  "route \<Rightarrow> upstream \<Rightarrow> int \<Rightarrow> ttl_cache \<Rightarrow> http_response \<times> ttl_cache \<times> effect list"
where
  "handler r up now c =
     (case r of
        Cryptocurrencies \<Rightarrow> cryptocurrencies_handler up now c
      | Cryptocurrency coin_id \<Rightarrow> cryptocurrency_handler up now c coin_id
      | History coin_id days_q \<Rightarrow> history_handler up now c coin_id days_q)"

text \<open>
  One request, served to the end: every route runs \<open>rateLimiter\<close> first and its handler
  only when the limiter calls \<open>next()\<close>. Requests are served one at a time.
\<close>

definition serve ::
  "upstream \<Rightarrow> int \<Rightarrow> request \<Rightarrow> server \<Rightarrow> http_response \<times> server \<times> effect list"
where
  "serve up now req s =
     (case rateLimiter (ip req) now (requestCounts s) of
        (Rejected res, rc) \<Rightarrow> (res, s\<lparr>requestCounts := rc\<rparr>, [])
      | (Next, rc) \<Rightarrow>
          (case handler (route req) up now (cache s) of
             (res, c, es) \<Rightarrow> (res, \<lparr>requestCounts = rc, cache = c\<rparr>, es)))"

text \<open>The state of a process that has just started.\<close>

definition init :: server where
  "init = \<lparr>requestCounts = Map.empty, cache = Map.empty\<rparr>"

section \<open>Notions used to state the properties\<close>

text \<open>
  The candle that the specification describes for index \<open>i\<close> of the price series:
  open is the previous price, close is the price at \<open>i\<close>, high and low are their maximum
  and minimum, the volume is the one at index \<open>i\<close>, and the time is the date of the
  price point at \<open>i\<close>.
\<close>

definition spec_candle :: "(int \<times> rat) list \<Rightarrow> (int \<times> rat) list \<Rightarrow> nat \<Rightarrow> candle" where
  "spec_candle price vol i =
     (let opening = snd (price ! (i - 1));
          closing = snd (price ! i)
      in \<lparr>time = date_string (fst (price ! i)), open_price = opening,
          high = max opening closing, low = min opening closing, close = closing,
          volume = snd (vol ! i)\<rparr>)"

text \<open>The example series of the specification, on three consecutive days.\<close>

definition example_chart :: market_chart where
  "example_chart =
     \<lparr>prices = [(1700006400000, 10), (1700092800000, 12), (1700179200000, 9)],
      total_volumes = [(1700006400000, 100), (1700092800000, 150), (1700179200000, 80)]\<rparr>"

text \<open>The timestamps recorded for a client; none when the client is not in the map.\<close>

definition window :: "(string \<rightharpoonup> int list) \<Rightarrow> string \<Rightarrow> int list" where
  "window rc client = (case rc client of None \<Rightarrow> [] | Some r \<Rightarrow> r)"

text \<open>A sequence of calls of the limiter, each by a client at a time.\<close>

fun admit_calls ::
  "(string \<times> int) list \<Rightarrow> (string \<rightharpoonup> int list) \<Rightarrow> verdict list \<times> (string \<rightharpoonup> int list)"
where
  "admit_calls [] rc = ([], rc)"
| "admit_calls ((client, now) # calls) rc =
     (case rateLimiter client now rc of
        (v, rc') \<Rightarrow> (case admit_calls calls rc' of (vs, rc'') \<Rightarrow> (v # vs, rc'')))"

definition too_many :: http_response where
  "too_many =
     \<lparr>res_status = 429,
      res_body = JObj [(''error'', JStr ''Too many requests, please try again later.'')]\<rparr>"

text \<open>
  The admission algorithm in the words of the specification, for a given reading of
  which recorded timestamps are dropped at time \<open>now\<close>: drop them from the client's
  list; if 30 or more remain, deny and leave the list as pruned; else append \<open>now\<close> and
  allow.
\<close>

definition spec_admit ::
  "(int \<Rightarrow> int \<Rightarrow> bool) \<Rightarrow> string \<Rightarrow> int \<Rightarrow> (string \<rightharpoonup> int list) \<Rightarrow>
   verdict \<times> (string \<rightharpoonup> int list)"
where
  "spec_admit dropped client now rc =
     (let kept = filter (\<lambda>t. \<not> dropped now t) (window rc client)
      in if length kept \<ge> 30 then (Rejected too_many, rc(client \<mapsto> kept))
         else (Next, rc(client \<mapsto> kept @ [now])))"

text \<open>A timestamp \<open>t\<close> is older than 60 seconds at \<open>now\<close>; it is 60 seconds old or older.\<close>

definition older_than_60s :: "int \<Rightarrow> int \<Rightarrow> bool" where
  "older_than_60s now t = (now - t > 60 * 1000)"

definition at_least_60s_old :: "int \<Rightarrow> int \<Rightarrow> bool" where
  "at_least_60s_old now t = (now - t \<ge> 60 * 1000)"

text \<open>
  Per route: the request sent upstream, the fixed message of the \<open>catch\<close> block, the
  outcome of the upstream call itself, and the value the handler caches and sends
  when nothing is thrown (the candlestick array on the history route).
\<close>

definition days_of :: "string option \<Rightarrow> string" where
  "days_of days_q = (case days_q of None \<Rightarrow> ''30'' | Some d \<Rightarrow> d)"

definition upstream_req_of :: "route \<Rightarrow> upstream_req" where
  "upstream_req_of r =
     (case r of
        Cryptocurrencies \<Rightarrow> markets_req
      | Cryptocurrency coin_id \<Rightarrow> coin_req coin_id
      | History coin_id days_q \<Rightarrow> market_chart_req coin_id (days_of days_q))"

definition failure_message :: "route \<Rightarrow> string" where
  "failure_message r =
     (case r of
        Cryptocurrencies \<Rightarrow> ''Failed to fetch cryptocurrency data''
      | Cryptocurrency coin_id \<Rightarrow> ''Failed to fetch cryptocurrency details''
      | History coin_id days_q \<Rightarrow> ''Failed to fetch historical price data'')"

definition upstream_outcome :: "route \<Rightarrow> upstream \<Rightarrow> (js_error + unit) \<times> int" where
  "upstream_outcome r up =
     (case r of
        History coin_id days_q \<Rightarrow>
          (case get_chart up (upstream_req_of r) of
             (Inl e, t) \<Rightarrow> (Inl e, t) | (Inr d, t) \<Rightarrow> (Inr (), t))
      | _ \<Rightarrow>
          (case get_json up (upstream_req_of r) of
             (Inl e, t) \<Rightarrow> (Inl e, t) | (Inr d, t) \<Rightarrow> (Inr (), t)))"

definition fetched :: "route \<Rightarrow> upstream \<Rightarrow> (js_error + json) \<times> int" where
  "fetched r up =
     (case r of
        History coin_id days_q \<Rightarrow>
          (case get_chart up (upstream_req_of r) of
             (Inl e, t) \<Rightarrow> (Inl e, t)
           | (Inr d, t) \<Rightarrow>
               (case transform d of
                  Inl e \<Rightarrow> (Inl e, t)
                | Inr cs \<Rightarrow> (Inr (JArr (map candle_json cs)), t)))
      | _ \<Rightarrow> get_json up (upstream_req_of r))"

text \<open>
  The limiter's map after one client made thirty calls at time 0 on a fresh process.
\<close>

definition thirty_at_zero :: "string \<rightharpoonup> int list" where
  "thirty_at_zero = snd (admit_calls (map (Pair ''10.0.0.1'') (replicate 30 0)) Map.empty)"

text \<open>
  Example environments and states: an upstream that is unreachable for the chart and
  answers 500 for the rest, one that answers \<open>null\<close> with status 200, and one that
  answers well; a request for the asset list; the server after it served that request
  from a fresh start against the last two upstreams; and a server on which one client
  has thirty recent requests.
\<close>

definition network_error :: js_error where
  "network_error = \<lparr>response = None, message = ''Network Error''\<rparr>"

definition upstream_500 :: upstream where
  "upstream_500 =
     \<lparr>get_json = (\<lambda>r. (Inl \<lparr>response = Some \<lparr>status = 500, data = JObj [(''status'', JStr ''down'')]\<rparr>,
                              message = ''Request failed with status code 500''\<rparr>, 150)),
      get_chart = (\<lambda>r. (Inl network_error, 150))\<rparr>"

definition upstream_null :: upstream where
  "upstream_null =
     \<lparr>get_json = (\<lambda>r. (Inr JNull, 10)), get_chart = (\<lambda>r. (Inl network_error, 10))\<rparr>"

definition upstream_example :: upstream where
  "upstream_example =
     \<lparr>get_json = (\<lambda>r. (Inr (JArr []), 10)), get_chart = (\<lambda>r. (Inr example_chart, 10))\<rparr>"

definition list_req :: request where
  "list_req = \<lparr>ip = ''10.0.0.1'', route = Cryptocurrencies\<rparr>"

definition after_null :: server where
  "after_null = fst (snd (serve upstream_null 0 list_req init))"

definition after_list :: server where
  "after_list = fst (snd (serve upstream_example 0 list_req init))"

definition full_window :: server where
  "full_window = \<lparr>requestCounts = Map.empty(''10.0.0.1'' \<mapsto> replicate 30 0), cache = Map.empty\<rparr>"

text \<open>
  A chart whose volume series is one entry short, an upstream that answers with it, a
  history request by a client for an asset and a number of days, and the server after
  it served the history of \<open>a_b\<close> over \<open>7\<close> days from a fresh start.
\<close>

definition short_chart :: market_chart where
  "short_chart =
     \<lparr>prices = [(1700006400000, 10), (1700092800000, 12), (1700179200000, 9)],
      total_volumes = [(1700006400000, 100), (1700092800000, 150)]\<rparr>"

definition upstream_short :: upstream where
  "upstream_short =
     \<lparr>get_json = (\<lambda>r. (Inr (JArr []), 10)), get_chart = (\<lambda>r. (Inr short_chart, 10))\<rparr>"

definition history_req :: "string \<Rightarrow> string \<Rightarrow> string \<Rightarrow> request" where
  "history_req client coin_id days = \<lparr>ip = client, route = History coin_id (Some days)\<rparr>"

definition after_history :: server where
  "after_history = fst (snd (serve upstream_example 0 (history_req ''10.0.0.1'' ''a_b'' ''7'') init))"

text \<open>
  A chart with a volume for every price whose second timestamp is one millisecond
  beyond the range of \<open>Date\<close>, and an upstream that answers with it.
\<close>

definition far_chart :: market_chart where
  "far_chart =
     \<lparr>prices = [(1700006400000, 10), (8640000000000001, 12), (1700179200000, 9)],
      total_volumes = [(1700006400000, 100), (1700092800000, 150), (1700179200000, 80)]\<rparr>"

definition upstream_far :: upstream where
  "upstream_far =
     \<lparr>get_json = (\<lambda>r. (Inr (JArr []), 10)), get_chart = (\<lambda>r. (Inr far_chart, 10))\<rparr>"

section \<open>The candlestick transform emits one candle per adjacent pair\<close>

text \<open>
  The loop invariant: started at index \<open>i\<close> with the candles \<open>acc\<close>, on series whose
  timestamps are dates and whose volumes cover the prices, the loop ends normally and
  has appended the candles of the indices from \<open>max 1 i\<close> on.
\<close>

lemma candlestick_loop_ok:
  assumes "length ps \<le> length vs" and "\<forall>p\<in>set ps. valid_time (fst p)"
  shows "candlestick_loop i ps vs acc = Inr (acc @ map (spec_candle ps vs) [max 1 i..<length ps])"
  using assms
proof (induction i ps vs acc rule: candlestick_loop.induct)
  case (1 i ps vs acc)
  show ?case
  proof (cases "i < length ps")
    case False
    then show ?thesis by (subst candlestick_loop.simps) simp
  next
    case True
    then have d: "isoDate (fst (ps ! i)) = Some (date_string (fst (ps ! i)))"
      using "1.prems"(2) by (simp add: isoDate_def)
    have v: "i < length vs" using True "1.prems"(1) by simp
    note ih = "1.IH"[OF True d v refl refl "1.prems"]
    show ?thesis
    proof (cases "i > 0")
      case False
      then have i0: "i = 0" by simp
      show ?thesis
        using ih True v d unfolding i0
        by (subst candlestick_loop.simps) (simp add: Let_def)
    next
      case pos: True
      have "[max 1 i..<length ps] = i # [max 1 (i + 1)..<length ps]"
        using pos True by (simp add: upt_conv_Cons max_def)
      then show ?thesis
        using ih True v d pos
        by (subst candlestick_loop.simps) (simp add: Let_def spec_candle_def)
    qed
  qed
qed

lemma example_dates:
  "date_string 1700092800000 = ''2023-11-16''" "date_string 1700179200000 = ''2023-11-17''"
  by code_simp+

text \<open>
  Claim C1, amended. For an upstream history response with N price points (N at least
  1), volumes for every price index and timestamps that are all within the range of
  \<open>Date\<close> (at most 8.64e15 ms from the epoch), the transform ends normally with exactly
  N - 1 candles, and for each index \<open>i\<close> from 1 to N - 1 the candle emitted at position
  \<open>i - 1\<close> is the one the specification describes: open is \<open>price[i-1]\<close>, close is
  \<open>price[i]\<close>, high and low are their maximum and minimum, the volume is \<open>volume[i]\<close>
  and the time is the day-granularity date of \<open>price[i]\<close>. No candle is emitted for the
  first price point.
\<close>

theorem transform_candles:
  assumes "prices d \<noteq> []"
    and "length (prices d) \<le> length (total_volumes d)"
    and "\<forall>p\<in>set (prices d). valid_time (fst p)"
  shows "\<exists>cs. transform d = Inr cs \<and> int (length cs) = int (length (prices d)) - 1 \<and>
           (\<forall>i\<in>{1..<length (prices d)}.
              cs ! (i - 1) = spec_candle (prices d) (total_volumes d) i)"
proof -
  let ?cs = "map (spec_candle (prices d) (total_volumes d)) [1..<length (prices d)]"
  have "transform d = Inr ?cs"
    using candlestick_loop_ok[OF assms(2,3), of 0 "[]"] by (simp add: transform_def)
  moreover have "int (length ?cs) = int (length (prices d)) - 1"
  proof -
    have "1 \<le> length (prices d)" using assms(1) by (cases "prices d") simp_all
    then show ?thesis by (simp add: of_nat_diff)
  qed
  moreover have "\<forall>i\<in>{1..<length (prices d)}.
      ?cs ! (i - 1) = spec_candle (prices d) (total_volumes d) i"
    by (auto simp: nth_map_upt)
  ultimately show ?thesis by blast
qed

text \<open>
  The example of the specification: prices 10, 12, 9 and volumes 100, 150, 80 on three
  consecutive days give the two candles (10, 12, 10, 12, 150) and (12, 12, 9, 9, 80),
  dated by the second and the third day.
\<close>

theorem transform_candles_witness:
  "prices example_chart \<noteq> [] \<and>
   length (prices example_chart) \<le> length (total_volumes example_chart) \<and>
   list_all (\<lambda>p. valid_time (fst p)) (prices example_chart) \<and>
   (\<exists>cs. transform example_chart = Inr cs \<and> length cs = 2 \<and>
      cs ! 0 = \<lparr>time = ''2023-11-16'', open_price = 10, high = 12, low = 10,
                close = 12, volume = 150\<rparr> \<and>
      cs ! 1 = \<lparr>time = ''2023-11-17'', open_price = 12, high = 12, low = 9,
                close = 9, volume = 80\<rparr>)"
proof -
  have h1: "prices example_chart \<noteq> []" by (simp add: example_chart_def)
  have h2: "length (prices example_chart) \<le> length (total_volumes example_chart)"
    by (simp add: example_chart_def)
  have h3: "\<forall>p\<in>set (prices example_chart). valid_time (fst p)"
    by (simp add: example_chart_def valid_time_def maxTime_def)
  obtain cs where cs: "transform example_chart = Inr cs"
      "int (length cs) = int (length (prices example_chart)) - 1"
      "\<forall>i\<in>{1..<length (prices example_chart)}.
         cs ! (i - 1) = spec_candle (prices example_chart) (total_volumes example_chart) i"
    using transform_candles[OF h1 h2 h3] by blast
  have l: "length cs = 2" using cs(2) by (simp add: example_chart_def)
  have "1 \<in> {1..<length (prices example_chart)}" "2 \<in> {1..<length (prices example_chart)}"
    by (simp_all add: example_chart_def)
  then have "cs ! (1 - 1) = spec_candle (prices example_chart) (total_volumes example_chart) 1"
    "cs ! (2 - 1) = spec_candle (prices example_chart) (total_volumes example_chart) 2"
    using cs(3) by blast+
  then have "cs ! 0 = \<lparr>time = ''2023-11-16'', open_price = 10, high = 12, low = 10,
                        close = 12, volume = 150\<rparr>"
    "cs ! 1 = \<lparr>time = ''2023-11-17'', open_price = 12, high = 12, low = 9,
               close = 9, volume = 80\<rparr>"
    by (simp_all add: spec_candle_def example_chart_def example_dates)
  then show ?thesis using h1 h2 h3 cs(1) l by (simp add: list_all_iff)
qed

section \<open>The sliding window of the rate limiter\<close>

text \<open>One call of the limiter, in terms of the client's recorded timestamps.\<close>

lemma rateLimiter_eq:
  "rateLimiter c now rc =
     (let kept = filter (\<lambda>t. t > now - 60000) (window rc c)
      in if 30 \<le> length kept then (Rejected too_many, rc(c \<mapsto> kept))
         else (Next, rc(c \<mapsto> kept @ [now])))"
  by (cases "rc c")
     (simp_all add: rateLimiter_def window_def Let_def too_many_def rateLimit_windowMs_def
        rateLimit_max_def rateLimit_message_def)

lemma window_upd [simp]: "window (rc(c \<mapsto> w)) c = w"
  by (simp add: window_def)

lemma window_upd_other [simp]: "c' \<noteq> c \<Longrightarrow> window (rc(c' \<mapsto> w)) c = window rc c"
  by (simp add: window_def)

lemma admit_calls_append:
  "admit_calls (xs @ ys) rc =
     (case admit_calls xs rc of
        (vs, rc') \<Rightarrow> (case admit_calls ys rc' of (vs', rc'') \<Rightarrow> (vs @ vs', rc'')))"
  by (induction xs arbitrary: rc) (auto split: prod.splits)

text \<open>
  Calls of one client that all fall less than 60 seconds after every recorded and every
  earlier timestamp, and that do not fill the window, are all admitted and all recorded.
\<close>

lemma quiet_run:
  assumes "window rc c = w" and "length w + length ts \<le> 30"
    and "\<forall>x\<in>set ts. \<forall>y\<in>set (w @ ts). x - y < 60000"
  shows "fst (admit_calls (map (Pair c) ts) rc) = replicate (length ts) Next \<and>
         window (snd (admit_calls (map (Pair c) ts) rc)) c = w @ ts"
  using assms
proof (induction ts arbitrary: rc w)
  case Nil
  then show ?case by simp
next
  case (Cons x ts)
  have "\<forall>y\<in>set w. x - 60000 < y"
  proof
    fix y assume "y \<in> set w"
    then have "x - y < 60000" using Cons.prems(3) by simp
    then show "x - 60000 < y" by simp
  qed
  then have keep: "filter (\<lambda>t. t > x - 60000) w = w"
    by (simp add: filter_id_conv)
  have lt: "length w < 30" using Cons.prems(2) by simp
  have step: "rateLimiter c x rc = (Next, rc(c \<mapsto> w @ [x]))"
    using keep lt Cons.prems(1) by (simp add: rateLimiter_eq Let_def)
  have "fst (admit_calls (map (Pair c) ts) (rc(c \<mapsto> w @ [x]))) = replicate (length ts) Next \<and>
        window (snd (admit_calls (map (Pair c) ts) (rc(c \<mapsto> w @ [x])))) c = (w @ [x]) @ ts"
  proof (rule Cons.IH)
    show "window (rc(c \<mapsto> w @ [x])) c = w @ [x]" by simp
    show "length (w @ [x]) + length ts \<le> 30" using Cons.prems(2) by simp
    show "\<forall>x'\<in>set ts. \<forall>y\<in>set ((w @ [x]) @ ts). x' - y < 60000"
      using Cons.prems(3) by auto
  qed
  then show ?case using step by (auto split: prod.splits)
qed

lemma thirty_then_denied_then_allowed:
  assumes len: "length ts = 30"
    and old: "\<forall>y\<in>set (window rc c). hd ts - y \<ge> 60000"
    and near: "\<forall>x\<in>set (ts @ [t31]). \<forall>y\<in>set ts. x - y < 60000"
    and later: "t - hd ts \<ge> 60000"
  shows "fst (admit_calls (map (Pair c) (ts @ [t31, t])) rc) =
           replicate 30 Next @ [Rejected too_many, Next]"
proof -
  obtain x1 ts' where ts: "ts = x1 # ts'" using len by (cases ts) auto
  have drop_old: "filter (\<lambda>t. t > x1 - 60000) (window rc c) = []"
    using old ts by (auto simp: filter_empty_conv)
  have first: "rateLimiter c x1 rc = (Next, rc(c \<mapsto> [x1]))"
    using drop_old by (simp add: rateLimiter_eq Let_def)
  let ?rc1 = "rc(c \<mapsto> [x1])"
  have run: "fst (admit_calls (map (Pair c) ts') ?rc1) = replicate (length ts') Next \<and>
             window (snd (admit_calls (map (Pair c) ts') ?rc1)) c = [x1] @ ts'"
  proof (rule quiet_run)
    show "window ?rc1 c = [x1]" by simp
    show "length [x1] + length ts' \<le> 30" using len ts by simp
    show "\<forall>x\<in>set ts'. \<forall>y\<in>set ([x1] @ ts'). x - y < 60000" using near ts by auto
  qed
  obtain vs rc30 where r30: "admit_calls (map (Pair c) ts') ?rc1 = (vs, rc30)"
    by (cases "admit_calls (map (Pair c) ts') ?rc1")
  have vs: "vs = replicate (length ts') Next" and w30: "window rc30 c = ts"
    using run r30 ts by simp_all
  have "\<forall>y\<in>set ts. t31 - 60000 < y"
  proof
    fix y assume "y \<in> set ts"
    then have "t31 - y < 60000" using near by simp
    then show "t31 - 60000 < y" by simp
  qed
  then have keep31: "filter (\<lambda>u. u > t31 - 60000) ts = ts"
    by (simp add: filter_id_conv)
  have deny: "rateLimiter c t31 rc30 = (Rejected too_many, rc30(c \<mapsto> ts))"
    using keep31 w30 len by (simp add: rateLimiter_eq Let_def)
  have "length (filter (\<lambda>u. u > t - 60000) ts) < length ts"
    using later ts by (intro length_filter_less[of x1]) auto
  then have "fst (rateLimiter c t (rc30(c \<mapsto> ts))) = Next"
    using len by (simp add: rateLimiter_eq Let_def)
  then obtain rc32 where again: "rateLimiter c t (rc30(c \<mapsto> ts)) = (Next, rc32)"
    by (cases "rateLimiter c t (rc30(c \<mapsto> ts))") simp
  have "length ts' = 29" using len ts by simp
  then have "replicate 30 Next = Next # replicate (length ts') Next"
    by (simp add: numeral_eq_Suc)
  then show ?thesis
    using first r30 vs deny again
    by (simp add: ts admit_calls_append split: prod.splits)
qed

text \<open>
  Calls that cannot fill the window are admitted whenever they are made.
\<close>

lemma burst_admitted:
  assumes "length (window rc c) + length ts \<le> 30"
  shows "fst (admit_calls (map (Pair c) ts) rc) = replicate (length ts) Next \<and>
         length (window (snd (admit_calls (map (Pair c) ts) rc)) c) \<le>
           length (window rc c) + length ts"
  using assms
proof (induction ts arbitrary: rc)
  case Nil
  then show ?case by simp
next
  case (Cons x ts)
  let ?kept = "filter (\<lambda>t. t > x - 60000) (window rc c)"
  let ?rc' = "rc(c \<mapsto> ?kept @ [x])"
  have le: "length ?kept \<le> length (window rc c)" by (rule length_filter_le)
  have pre: "length (window rc c) + Suc (length ts) \<le> 30" using Cons.prems by simp
  have lt: "length ?kept < 30" using le pre by linarith
  have step: "rateLimiter c x rc = (Next, ?rc')"
    using lt by (simp add: rateLimiter_eq Let_def)
  have eq: "length (window ?rc' c) = Suc (length ?kept)" by simp
  have fits: "length (window ?rc' c) + length ts \<le> 30" using eq le pre by linarith
  have ih: "fst (admit_calls (map (Pair c) ts) ?rc') = replicate (length ts) Next"
    "length (window (snd (admit_calls (map (Pair c) ts) ?rc')) c) \<le>
       length (window ?rc' c) + length ts"
    using Cons.IH[of ?rc', OF fits] by blast+
  have bound: "length (window (snd (admit_calls (map (Pair c) ts) ?rc')) c) \<le>
      length (window rc c) + length (x # ts)"
    using ih(2) eq le by (simp del: length_filter_le)
  show ?case using step ih(1) bound by (auto split: prod.splits)
qed

lemma thirty_at_zero_run:
  "fst (admit_calls (map (Pair ''10.0.0.1'') (replicate 30 0)) Map.empty) = replicate 30 Next"
  "window thirty_at_zero ''10.0.0.1'' = replicate 30 0"
proof -
  have "fst (admit_calls (map (Pair ''10.0.0.1'') (replicate 30 0)) Map.empty) =
          replicate (length (replicate 30 (0::int))) Next \<and>
        window (snd (admit_calls (map (Pair ''10.0.0.1'') (replicate 30 0)) Map.empty))
          ''10.0.0.1'' = [] @ replicate 30 0"
    by (rule quiet_run) (simp_all add: window_def)
  then show "fst (admit_calls (map (Pair ''10.0.0.1'') (replicate 30 0)) Map.empty) =
      replicate 30 Next"
    and "window thirty_at_zero ''10.0.0.1'' = replicate 30 0"
    by (simp_all add: thirty_at_zero_def del: map_replicate)
qed

text \<open>
  Claim C2 as it is written fails at the boundary. The limiter keeps the timestamps
  \<open>time > now - 60000\<close>, so it also drops a timestamp that is exactly 60 seconds old,
  which is not older than 60 seconds. After thirty admitted calls at time 0, a call at
  time 60000 finds no recorded timestamp older than 60 seconds: by the claim's algorithm
  all thirty remain and the call is denied, but the limiter admits it.
\<close>

theorem admit_boundary_counterexample:
  "fst (admit_calls (map (Pair ''10.0.0.1'') (replicate 30 0)) Map.empty) = replicate 30 Next \<and>
   window thirty_at_zero ''10.0.0.1'' = replicate 30 0 \<and>
   filter (older_than_60s 60000) (replicate 30 0) = [] \<and>
   fst (spec_admit older_than_60s ''10.0.0.1'' 60000 thirty_at_zero) = Rejected too_many \<and>
   fst (rateLimiter ''10.0.0.1'' 60000 thirty_at_zero) = Next"
  by (simp add: thirty_at_zero_run rateLimiter_eq spec_admit_def older_than_60s_def Let_def
        del: map_replicate)

text \<open>
  Claim C2, amended. For every client and every call at a time \<open>now\<close>, the limiter first
  drops that client's recorded timestamps that are 60 seconds old or older, then denies
  without appending if 30 or more remain, and otherwise appends \<open>now\<close> and allows.
  Consequently calls that together with the recorded timestamps number at most 30 are
  all allowed; and for a client with nothing recorded in the 60 seconds before the
  first call: 30 calls within 60 seconds are all allowed, a 31st call less than 60
  seconds after each of them is denied, and a call 60 seconds or more after the first
  call is allowed again.
\<close>

theorem rateLimiter_sliding_window:
  "rateLimiter c now rc = spec_admit at_least_60s_old c now rc \<and>
   (length (window rc c) + length bs \<le> 30 \<longrightarrow>
    fst (admit_calls (map (Pair c) bs) rc) = replicate (length bs) Next) \<and>
   (length ts = 30 \<and> (\<forall>y\<in>set (window rc c). hd ts - y \<ge> 60 * 1000) \<and>
    (\<forall>x\<in>set (ts @ [t31]). \<forall>y\<in>set ts. x - y < 60 * 1000) \<and> t - hd ts \<ge> 60 * 1000 \<longrightarrow>
    fst (admit_calls (map (Pair c) (ts @ [t31, t])) rc) =
      replicate 30 Next @ [Rejected too_many, Next])"
proof (intro conjI)
  have "(\<lambda>t. \<not> at_least_60s_old now t) = (\<lambda>t. t > now - 60000)"
    by (auto simp: at_least_60s_old_def)
  then show "rateLimiter c now rc = spec_admit at_least_60s_old c now rc"
    by (simp add: rateLimiter_eq spec_admit_def)
  show "length (window rc c) + length bs \<le> 30 \<longrightarrow>
    fst (admit_calls (map (Pair c) bs) rc) = replicate (length bs) Next"
    using burst_admitted[of rc c bs] by blast
  show "length ts = 30 \<and> (\<forall>y\<in>set (window rc c). hd ts - y \<ge> 60 * 1000) \<and>
    (\<forall>x\<in>set (ts @ [t31]). \<forall>y\<in>set ts. x - y < 60 * 1000) \<and> t - hd ts \<ge> 60 * 1000 \<longrightarrow>
    fst (admit_calls (map (Pair c) (ts @ [t31, t])) rc) =
      replicate 30 Next @ [Rejected too_many, Next]"
    using thirty_then_denied_then_allowed[of ts rc c t31 t] by simp
qed

text \<open>
  Fifteen calls at time 0 and fifteen at 30 s are allowed, the call at 59.999 s is
  denied, and the call at 60 s is allowed.
\<close>

theorem rateLimiter_sliding_window_witness:
  "length (replicate 15 0 @ replicate 15 (30000::int)) = 30 \<and>
   window Map.empty ''10.0.0.1'' = [] \<and>
   fst (admit_calls (map (Pair ''10.0.0.1'') ((replicate 15 0 @ replicate 15 30000) @ [59999, 60000]))
          Map.empty) =
     replicate 30 Next @ [Rejected too_many, Next]"
  using rateLimiter_sliding_window
          [of "''10.0.0.1''" 0 Map.empty "[]" "replicate 15 0 @ replicate 15 30000" 59999 60000]
  by (simp add: window_def)

text \<open>
  Claim C7. After a call of the limiter for a client at time \<open>now\<close>, the client's stored
  list holds no timestamp older than \<open>now\<close> minus 60 seconds (every stored timestamp is
  later than that); after an accepted request the list has at most 30 entries; and a
  request that arrives when the pruned list already holds 30 timestamps is rejected and
  the stored list is the pruned list, without the request.
\<close>

theorem rateLimiter_window_invariant:
  assumes "rateLimiter c now rc = (v, rc')"
  shows "(\<forall>t\<in>set (window rc' c). now - 60 * 1000 < t) \<and>
         (v = Next \<longrightarrow> length (window rc' c) \<le> 30) \<and>
         (length (filter (\<lambda>t. now - 60 * 1000 < t) (window rc c)) \<ge> 30 \<longrightarrow>
            v = Rejected too_many \<and>
            window rc' c = filter (\<lambda>t. now - 60 * 1000 < t) (window rc c))"
  using assms by (auto simp: rateLimiter_eq Let_def split: if_splits)

theorem rateLimiter_window_invariant_witness:
  "rateLimiter ''10.0.0.1'' 60000 (Map.empty(''10.0.0.1'' \<mapsto> [0, 1, 2])) =
     (Next, (Map.empty(''10.0.0.1'' \<mapsto> [0, 1, 2]))(''10.0.0.1'' \<mapsto> [1, 2, 60000])) \<and>
   list_all (\<lambda>t. 60000 - 60 * 1000 < t) [1, 2, 60000::int] \<and>
   length [1, 2, 60000::int] \<le> 30"
proof -
  let ?rc = "Map.empty(''10.0.0.1'' \<mapsto> [0, 1, 2::int])"
  have r: "rateLimiter ''10.0.0.1'' 60000 ?rc = (Next, ?rc(''10.0.0.1'' \<mapsto> [1, 2, 60000]))"
    by (simp add: rateLimiter_eq Let_def window_def)
  show ?thesis using rateLimiter_window_invariant[OF r] r by (simp add: window_def)
qed

lemma dom_rateLimiter: "dom (snd (rateLimiter c now rc)) = insert c (dom rc)"
  by (simp add: rateLimiter_eq Let_def)

lemma dom_admit_calls: "dom (snd (admit_calls calls rc)) = dom rc \<union> fst ` set calls"
proof (induction calls arbitrary: rc)
  case Nil
  then show ?case by simp
next
  case (Cons a calls)
  obtain c now where a: "a = (c, now)" by (cases a)
  obtain v rc' where r: "rateLimiter c now rc = (v, rc')" by (cases "rateLimiter c now rc")
  have d: "dom rc' = insert c (dom rc)" using dom_rateLimiter[of c now rc] r by simp
  have "snd (admit_calls (a # calls) rc) = snd (admit_calls calls rc')"
    using a r by (simp split: prod.splits)
  then have "dom (snd (admit_calls (a # calls) rc)) = dom rc' \<union> fst ` set calls"
    using Cons.IH[of rc'] by simp
  then show ?case using d a by simp
qed

text \<open>
  Claim C8. The set of client identifiers in the limiter's map never shrinks: a call
  adds the calling client and removes none, whatever becomes of the client's pruned
  list; after any sequence of calls the map holds every client it held before and every
  client that called; started from the empty map it holds as many keys as there were
  distinct clients, so it grows without bound with them. The same holds for a request
  served by the server.
\<close>

theorem client_map_never_shrinks:
  "dom (snd (rateLimiter c now rc)) = insert c (dom rc) \<and>
   dom (snd (admit_calls calls rc)) = dom rc \<union> fst ` set calls \<and>
   card (dom (snd (admit_calls calls Map.empty))) = card (fst ` set calls) \<and>
   dom (requestCounts (fst (snd (serve up now req s)))) =
     insert (ip req) (dom (requestCounts s))"
proof -
  obtain v rc' where r: "rateLimiter (ip req) now (requestCounts s) = (v, rc')"
    by (cases "rateLimiter (ip req) now (requestCounts s)")
  have d: "dom rc' = insert (ip req) (dom (requestCounts s))"
    using dom_rateLimiter[of "ip req" now "requestCounts s"] r by simp
  have "requestCounts (fst (snd (serve up now req s))) = rc'"
    using r by (cases v) (simp_all add: serve_def split: prod.splits)
  then show ?thesis using d by (simp add: dom_rateLimiter dom_admit_calls)
qed

text \<open>
  Client \<open>a\<close> calls, then \<open>b\<close>, then \<open>a\<close> again after its window has emptied, then \<open>c\<close>: the
  map holds the three of them.
\<close>

theorem client_map_never_shrinks_witness:
  "dom (snd (admit_calls [(''a'', 0), (''b'', 1), (''a'', 70000), (''c'', 140000)] Map.empty)) =
     {''a'', ''b'', ''c''} \<and>
   card (dom (snd (admit_calls [(''a'', 0), (''b'', 1), (''a'', 70000), (''c'', 140000)] Map.empty))) = 3"
proof -
  let ?calls = "[(''a'', 0), (''b'', 1), (''a'', 70000), (''c'', 140000::int)]"
  have s: "fst ` set ?calls = {''a'', ''b'', ''c''}" by auto
  have c: "card {''a'', ''b'', ''c''} = 3" by simp
  have "dom (snd (admit_calls ?calls Map.empty)) = dom Map.empty \<union> fst ` set ?calls"
    and "card (dom (snd (admit_calls ?calls Map.empty))) = card (fst ` set ?calls)"
    using client_map_never_shrinks[of "''a''" 0 Map.empty ?calls] by blast+
  then show ?thesis unfolding s c by simp
qed

section \<open>Rejections and upstream failures\<close>

text \<open>
  The three handlers have one shape: look the key up; answer a truthy cached value; else
  call upstream once and either cache and answer the result or answer from the \<open>catch\<close>
  block.
\<close>

lemma handler_eq:
  "handler r up now c =
     (case if_truthy (cache_get c (cacheKey_of r) now) of
        Some v \<Rightarrow> (res_json v, c, [CacheGet (cacheKey_of r)])
      | None \<Rightarrow>
          (case fetched r up of
             (Inr d, t) \<Rightarrow>
               (res_json d, cache_set c (cacheKey_of r) d t,
                [CacheGet (cacheKey_of r), UpstreamGet (upstream_req_of r),
                 CacheSet (cacheKey_of r) d])
           | (Inl e, t) \<Rightarrow>
               (catch_response (failure_message r) e, c,
                [CacheGet (cacheKey_of r), UpstreamGet (upstream_req_of r)])))"
proof (cases r)
  case Cryptocurrencies
  then show ?thesis
    by (simp add: handler_def cryptocurrencies_handler_def cacheKey_of_def fetched_def
          upstream_req_of_def failure_message_def Let_def
        split: option.splits prod.splits sum.splits)
next
  case (Cryptocurrency coin_id)
  then show ?thesis
    by (simp add: handler_def cryptocurrency_handler_def cacheKey_of_def fetched_def
          upstream_req_of_def failure_message_def Let_def
        split: option.splits prod.splits sum.splits)
next
  case (History coin_id days_q)
  then show ?thesis
    by (auto simp: handler_def history_handler_def cacheKey_of_def fetched_def
          upstream_req_of_def failure_message_def Let_def days_of_def
        split: option.splits prod.splits sum.splits)
qed

lemma serve_admitted:
  assumes "fst (rateLimiter (ip req) now (requestCounts s)) = Next"
  shows "serve up now req s =
           (case handler (route req) up now (cache s) of
              (res, c, es) \<Rightarrow>
                (res, \<lparr>requestCounts = snd (rateLimiter (ip req) now (requestCounts s)),
                       cache = c\<rparr>, es))"
  using assms
  by (cases "rateLimiter (ip req) now (requestCounts s)") (simp add: serve_def)

lemma serve_hit:
  assumes "fst (rateLimiter (ip req) now (requestCounts s)) = Next"
    and "if_truthy (cache_get (cache s) (cacheKey_of (route req)) now) = Some v"
  shows "serve up now req s =
           (res_json v, s\<lparr>requestCounts := snd (rateLimiter (ip req) now (requestCounts s))\<rparr>,
            [CacheGet (cacheKey_of (route req))])"
  using assms by (simp add: serve_admitted handler_eq)

lemma serve_miss_ok:
  assumes "fst (rateLimiter (ip req) now (requestCounts s)) = Next"
    and "if_truthy (cache_get (cache s) (cacheKey_of (route req)) now) = None"
    and "fetched (route req) up = (Inr d, t)"
  shows "serve up now req s =
           (res_json d,
            \<lparr>requestCounts = snd (rateLimiter (ip req) now (requestCounts s)),
             cache = cache_set (cache s) (cacheKey_of (route req)) d t\<rparr>,
            [CacheGet (cacheKey_of (route req)), UpstreamGet (upstream_req_of (route req)),
             CacheSet (cacheKey_of (route req)) d])"
  using assms by (simp add: serve_admitted handler_eq)

lemma serve_miss_fail:
  assumes "fst (rateLimiter (ip req) now (requestCounts s)) = Next"
    and "if_truthy (cache_get (cache s) (cacheKey_of (route req)) now) = None"
    and "fetched (route req) up = (Inl e, t)"
  shows "serve up now req s =
           (catch_response (failure_message (route req)) e,
            \<lparr>requestCounts = snd (rateLimiter (ip req) now (requestCounts s)),
             cache = cache s\<rparr>,
            [CacheGet (cacheKey_of (route req)), UpstreamGet (upstream_req_of (route req))])"
  using assms by (simp add: serve_admitted handler_eq)

lemma fetched_failure:
  "fst (upstream_outcome r up) = Inl e \<Longrightarrow> fst (fetched r up) = Inl e"
  by (cases r) (auto simp: upstream_outcome_def fetched_def split: prod.splits sum.splits)

lemma upstream_at_most_once:
  "length (filter is_upstream (snd (snd (serve up now req s)))) \<le> 1"
proof (cases "rateLimiter (ip req) now (requestCounts s)")
  case (Pair v rc)
  show ?thesis
  proof (cases v)
    case (Rejected res)
    then show ?thesis using Pair by (simp add: serve_def)
  next
    case Next
    then have "fst (rateLimiter (ip req) now (requestCounts s)) = Next" using Pair by simp
    then show ?thesis
      by (simp add: serve_admitted handler_eq split: option.splits prod.splits sum.splits)
  qed
qed

lemma init_admits: "fst (rateLimiter c now (requestCounts init)) = Next"
  by (simp add: rateLimiter_eq init_def window_def Let_def)

text \<open>
  Claim C3. A request that the rate limiter denies is answered with status 429 and the
  body \<open>{error: "Too many requests, please try again later."}\<close>; the client's stored
  window after the call is the pruned window, without the request; the cache is
  untouched, and no cache lookup, cache write or upstream fetch is performed.
\<close>

theorem denied_request:
  assumes "fst (rateLimiter (ip req) now (requestCounts s)) = Rejected res"
  shows "fst (serve up now req s) =
           \<lparr>res_status = 429,
            res_body = JObj [(''error'', JStr ''Too many requests, please try again later.'')]\<rparr> \<and>
         window (requestCounts (fst (snd (serve up now req s)))) (ip req) =
           filter (\<lambda>t. now - 60 * 1000 < t) (window (requestCounts s) (ip req)) \<and>
         cache (fst (snd (serve up now req s))) = cache s \<and>
         snd (snd (serve up now req s)) = []"
  using assms
  by (auto simp: serve_def rateLimiter_eq Let_def too_many_def split: if_splits)

text \<open>
  A client with thirty requests at time 0 asks again one second later.
\<close>

theorem denied_request_witness:
  "fst (rateLimiter (ip list_req) 1000 (requestCounts full_window)) = Rejected too_many \<and>
   res_status (fst (serve upstream_example 1000 list_req full_window)) = 429 \<and>
   window (requestCounts (fst (snd (serve upstream_example 1000 list_req full_window))))
     ''10.0.0.1'' = replicate 30 0 \<and>
   snd (snd (serve upstream_example 1000 list_req full_window)) = []"
proof -
  have h: "fst (rateLimiter (ip list_req) 1000 (requestCounts full_window)) = Rejected too_many"
    by (simp add: rateLimiter_eq full_window_def list_req_def window_def Let_def)
  show ?thesis
    using denied_request[OF h, of upstream_example] h
    by (simp add: full_window_def list_req_def window_def)
qed

text \<open>
  Claim C4. On each of the three routes, when an admitted request misses the cache and
  the upstream call fails, the handler answers with the upstream response status when
  there is one (an HTTP status code, so not 0) and with 500 otherwise, and with a body
  holding the route's fixed \<open>error\<close> message and a \<open>details\<close> field that carries the
  upstream error payload, or the error message when there is no payload; exactly one
  upstream call is made. No request makes more than one upstream call.
\<close>

theorem upstream_failure_response:
  "(fst (rateLimiter (ip req) now (requestCounts s)) = Next \<and>
    if_truthy (cache_get (cache s) (cacheKey_of (route req)) now) = None \<and>
    fst (upstream_outcome (route req) up) = Inl e \<longrightarrow>
      (\<forall>r. response e = Some r \<and> status r \<noteq> 0 \<longrightarrow>
         res_status (fst (serve up now req s)) = status r) \<and>
      (response e = None \<longrightarrow> res_status (fst (serve up now req s)) = 500) \<and>
      res_body (fst (serve up now req s)) =
        JObj [(''error'', JStr (failure_message (route req))),
              (''details'',
               (case response e of
                  Some r \<Rightarrow> if truthy (data r) then data r else JStr (message e)
                | None \<Rightarrow> JStr (message e)))] \<and>
      length (filter is_upstream (snd (snd (serve up now req s)))) = 1) \<and>
   length (filter is_upstream (snd (snd (serve up now req s)))) \<le> 1"
proof (intro conjI impI)
  assume a: "fst (rateLimiter (ip req) now (requestCounts s)) = Next \<and>
    if_truthy (cache_get (cache s) (cacheKey_of (route req)) now) = None \<and>
    fst (upstream_outcome (route req) up) = Inl e"
  then obtain t where f: "fetched (route req) up = (Inl e, t)"
    using fetched_failure[of "route req" up e] by (cases "fetched (route req) up") simp
  have s: "serve up now req s =
      (catch_response (failure_message (route req)) e,
       \<lparr>requestCounts = snd (rateLimiter (ip req) now (requestCounts s)), cache = cache s\<rparr>,
       [CacheGet (cacheKey_of (route req)), UpstreamGet (upstream_req_of (route req))])"
    using a f by (simp add: serve_admitted handler_eq)
  show "\<forall>r. response e = Some r \<and> status r \<noteq> 0 \<longrightarrow>
         res_status (fst (serve up now req s)) = status r"
    by (simp add: s catch_response_def)
  show "res_status (fst (serve up now req s)) = 500" if "response e = None"
    using that by (simp add: s catch_response_def)
  show "res_body (fst (serve up now req s)) =
        JObj [(''error'', JStr (failure_message (route req))),
              (''details'',
               (case response e of
                  Some r \<Rightarrow> if truthy (data r) then data r else JStr (message e)
                | None \<Rightarrow> JStr (message e)))]"
    by (simp add: s catch_response_def)
  show "length (filter is_upstream (snd (snd (serve up now req s)))) = 1"
    by (simp add: s)
next
  show "length (filter is_upstream (snd (snd (serve up now req s)))) \<le> 1"
    by (rule upstream_at_most_once)
qed

text \<open>
  An upstream 500 on the asset list gives a 500 response with \<open>error\<close> and \<open>details\<close>.
\<close>

theorem upstream_failure_response_witness:
  "fst (rateLimiter (ip list_req) 0 (requestCounts init)) = Next \<and>
   if_truthy (cache_get (cache init) (cacheKey_of (route list_req)) 0) = None \<and>
   res_status (fst (serve upstream_500 0 list_req init)) = 500 \<and>
   res_body (fst (serve upstream_500 0 list_req init)) =
     JObj [(''error'', JStr ''Failed to fetch cryptocurrency data''),
           (''details'', JObj [(''status'', JStr ''down'')])] \<and>
   length (filter is_upstream (snd (snd (serve upstream_500 0 list_req init)))) = 1"
proof -
  let ?e = "\<lparr>response = Some \<lparr>status = 500, data = JObj [(''status'', JStr ''down'')]\<rparr>,
             message = ''Request failed with status code 500''\<rparr>"
  have h1: "fst (rateLimiter (ip list_req) 0 (requestCounts init)) = Next"
    by (rule init_admits)
  have h2: "if_truthy (cache_get (cache init) (cacheKey_of (route list_req)) 0) = None"
    by (simp add: init_def cache_get_def if_truthy_def)
  have h3: "fst (upstream_outcome (route list_req) upstream_500) = Inl ?e"
    by (simp add: upstream_outcome_def list_req_def upstream_500_def)
  show ?thesis
    using upstream_failure_response[of list_req 0 init upstream_500 ?e] h1 h2 h3
    by (simp add: failure_message_def list_req_def)
qed

section \<open>Expiry in the TTL cache\<close>

lemma cache_get_set_same:
  "cache_get (cache_set c k v t) k t' = (if t' - t < 300 * 1000 then Some v else None)"
  by (simp add: cache_get_def cache_set_def stdTTL_def)

lemma cache_get_set_other:
  "k' \<noteq> k \<Longrightarrow> cache_get (cache_set c k' v' t) k t' = cache_get c k t'"
  by (simp add: cache_get_def cache_set_def)

lemma cache_get_Some:
  "cache_get c k t = Some v \<longleftrightarrow> (\<exists>ins. c k = Some (v, ins) \<and> t - ins < 300 * 1000)"
  by (cases "c k") (auto simp: cache_get_def stdTTL_def split: if_splits)

lemma cache_get_same_value:
  "cache_get c k t1 = Some v1 \<Longrightarrow> cache_get c k t2 = Some v2 \<Longrightarrow> v1 = v2"
  unfolding cache_get_Some by auto

lemma cache_get_earlier:
  "t1 \<le> t2 \<Longrightarrow> cache_get c k t2 = Some v2 \<Longrightarrow> cache_get c k t1 = Some v2"
  unfolding cache_get_Some by auto

text \<open>
  Claim C5. After \<open>set(k, v)\<close> at time \<open>t\<close>, a \<open>get(k)\<close> less than 300 seconds later returns
  \<open>v\<close>, whatever was stored for \<open>k\<close> before, and a \<open>get(k)\<close> 300 seconds later or more
  returns absent; a \<open>set\<close> of another key does not change what \<open>get(k)\<close> returns; any two
  \<open>get(k)\<close> on the same cache that return a value return the same value, and a \<open>get(k)\<close>
  that returns a value was preceded only by \<open>get(k)\<close> returning that value. Absence is
  the value \<open>None\<close>, not an error.
\<close>

theorem cache_ttl:
  "(t' - t < 300 * 1000 \<longrightarrow> cache_get (cache_set c k v t) k t' = Some v) \<and>
   (t' - t \<ge> 300 * 1000 \<longrightarrow> cache_get (cache_set c k v t) k t' = None) \<and>
   (k' \<noteq> k \<longrightarrow> cache_get (cache_set c k' v' t) k t' = cache_get c k t') \<and>
   (cache_get c k t1 = Some v1 \<and> cache_get c k t2 = Some v2 \<longrightarrow> v1 = v2) \<and>
   (t1 \<le> t2 \<and> cache_get c k t2 = Some v2 \<longrightarrow> cache_get c k t1 = Some v2)"
proof (intro conjI impI)
  show "cache_get (cache_set c k v t) k t' = Some v" if "t' - t < 300 * 1000"
    using that by (simp add: cache_get_set_same)
  show "cache_get (cache_set c k v t) k t' = None" if "300 * 1000 \<le> t' - t"
    using that by (simp add: cache_get_set_same)
  show "cache_get (cache_set c k' v' t) k t' = cache_get c k t'" if "k' \<noteq> k"
    using that by (rule cache_get_set_other)
  show "v1 = v2" if "cache_get c k t1 = Some v1 \<and> cache_get c k t2 = Some v2"
    using that cache_get_same_value by blast
  show "cache_get c k t1 = Some v2" if "t1 \<le> t2 \<and> cache_get c k t2 = Some v2"
    using that cache_get_earlier by blast
qed

theorem cache_ttl_witness:
  "cache_get (cache_set (cache_set Map.empty ''k'' (JNum 1) 0) ''k'' (JNum 2) 1000) ''k'' 300999 =
     Some (JNum 2) \<and>
   cache_get (cache_set (cache_set Map.empty ''k'' (JNum 1) 0) ''k'' (JNum 2) 1000) ''k'' 301000 =
     None"
proof -
  let ?c = "cache_set Map.empty ''k'' (JNum 1) 0"
  have a: "(300999::int) - 1000 < 300 * 1000 \<longrightarrow>
      cache_get (cache_set ?c ''k'' (JNum 2) 1000) ''k'' 300999 = Some (JNum 2)"
    by (rule cache_ttl[of 300999 1000 ?c "''k''" "JNum 2", THEN conjunct1])
  have b: "(301000::int) - 1000 \<ge> 300 * 1000 \<longrightarrow>
      cache_get (cache_set ?c ''k'' (JNum 2) 1000) ''k'' 301000 = None"
    by (rule cache_ttl[of 301000 1000 ?c "''k''" "JNum 2", THEN conjunct2, THEN conjunct1])
  have "(300999::int) - 1000 < 300 * 1000" "(301000::int) - 1000 \<ge> 300 * 1000" by simp_all
  then show ?thesis using a b by blast
qed

section \<open>Cache first\<close>

lemma after_null_eq:
  "after_null =
      \<lparr>requestCounts = Map.empty(''10.0.0.1'' \<mapsto> [0]),
       cache = cache_set Map.empty ''cryptocurrencies'' JNull 10\<rparr>"
proof -
  have adm: "fst (rateLimiter (ip list_req) 0 (requestCounts init)) = Next"
    by (rule init_admits)
  have miss: "if_truthy (cache_get (cache init) (cacheKey_of (route list_req)) 0) = None"
    by (simp add: init_def cache_get_def if_truthy_def)
  have f: "fetched (route list_req) upstream_null = (Inr JNull, 10)"
    by (simp add: fetched_def list_req_def upstream_null_def)
  have "after_null =
      \<lparr>requestCounts = snd (rateLimiter (ip list_req) 0 (requestCounts init)),
       cache = cache_set (cache init) (cacheKey_of (route list_req)) JNull 10\<rparr>"
    unfolding after_null_def serve_miss_ok[OF adm miss f] by simp
  then show ?thesis
    by (simp add: rateLimiter_eq Let_def window_def init_def list_req_def cacheKey_of_def)
qed

text \<open>
  Claim C6 as it is written fails for a cached value that is falsy. The handlers test
  \<open>if (cachedData)\<close>, so a cached \<open>null\<close>, \<open>false\<close>, \<open>0\<close> or empty string is treated as a
  miss. After the upstream answered the asset list with \<open>null\<close>, the value is in the
  cache, and the next admitted request, whose lookup returns it, still fetches upstream
  and writes the cache.
\<close>

theorem falsy_cached_value_counterexample:
  "fst (rateLimiter (ip list_req) 20 (requestCounts after_null)) = Next \<and>
   cache_get (cache after_null) (cacheKey_of (route list_req)) 20 = Some JNull \<and>
   snd (snd (serve upstream_null 20 list_req after_null)) =
     [CacheGet ''cryptocurrencies'', UpstreamGet markets_req, CacheSet ''cryptocurrencies'' JNull]"
proof -
  have adm: "fst (rateLimiter (ip list_req) 20 (requestCounts after_null)) = Next"
    by (simp add: after_null_eq rateLimiter_eq window_def list_req_def Let_def)
  have hit: "cache_get (cache after_null) (cacheKey_of (route list_req)) 20 = Some JNull"
    by (simp add: after_null_eq cacheKey_of_def list_req_def cache_get_def cache_set_def
          stdTTL_def)
  then have miss: "if_truthy (cache_get (cache after_null) (cacheKey_of (route list_req)) 20) = None"
    by (simp add: if_truthy_def)
  have f: "fetched (route list_req) upstream_null = (Inr JNull, 10)"
    by (simp add: fetched_def list_req_def upstream_null_def)
  have "snd (snd (serve upstream_null 20 list_req after_null)) =
     [CacheGet ''cryptocurrencies'', UpstreamGet markets_req, CacheSet ''cryptocurrencies'' JNull]"
    unfolding serve_miss_ok[OF adm miss f]
    by (simp add: cacheKey_of_def upstream_req_of_def list_req_def)
  then show ?thesis using adm hit by simp
qed

text \<open>
  Claim C6, amended. For every admitted request on any of the three endpoints: when the
  cache lookup for the computed key returns a truthy value, the handler responds with
  that value and performs no upstream fetch and no cache write; an upstream fetch or a
  cache write happens only when the lookup returns nothing or a falsy value; and in that
  case, when the upstream call and the transform succeed, the handler fetches once,
  stores the (possibly transformed) result under the key and responds with it.
\<close>

theorem cache_first:
  assumes "fst (rateLimiter (ip req) now (requestCounts s)) = Next"
  shows "(\<forall>v. cache_get (cache s) (cacheKey_of (route req)) now = Some v \<and> truthy v \<longrightarrow>
            serve up now req s =
              (res_json v,
               s\<lparr>requestCounts := snd (rateLimiter (ip req) now (requestCounts s))\<rparr>,
               [CacheGet (cacheKey_of (route req))])) \<and>
         ((\<exists>e\<in>set (snd (snd (serve up now req s))). is_upstream e \<or> is_cache_write e) \<longrightarrow>
            if_truthy (cache_get (cache s) (cacheKey_of (route req)) now) = None) \<and>
         (\<forall>d t. if_truthy (cache_get (cache s) (cacheKey_of (route req)) now) = None \<and>
                 fetched (route req) up = (Inr d, t) \<longrightarrow>
            serve up now req s =
              (res_json d,
               \<lparr>requestCounts = snd (rateLimiter (ip req) now (requestCounts s)),
                cache = cache_set (cache s) (cacheKey_of (route req)) d t\<rparr>,
               [CacheGet (cacheKey_of (route req)), UpstreamGet (upstream_req_of (route req)),
                CacheSet (cacheKey_of (route req)) d]))"
proof (intro conjI allI impI)
  fix v
  assume "cache_get (cache s) (cacheKey_of (route req)) now = Some v \<and> truthy v"
  then have "if_truthy (cache_get (cache s) (cacheKey_of (route req)) now) = Some v"
    by (simp add: if_truthy_def)
  then show "serve up now req s =
      (res_json v, s\<lparr>requestCounts := snd (rateLimiter (ip req) now (requestCounts s))\<rparr>,
       [CacheGet (cacheKey_of (route req))])"
    using assms by (simp add: serve_admitted handler_eq)
next
  assume "\<exists>e\<in>set (snd (snd (serve up now req s))). is_upstream e \<or> is_cache_write e"
  then show "if_truthy (cache_get (cache s) (cacheKey_of (route req)) now) = None"
    using assms
    by (cases "if_truthy (cache_get (cache s) (cacheKey_of (route req)) now)")
       (simp_all add: serve_admitted handler_eq)
next
  fix d t
  assume "if_truthy (cache_get (cache s) (cacheKey_of (route req)) now) = None \<and>
          fetched (route req) up = (Inr d, t)"
  then show "serve up now req s =
      (res_json d,
       \<lparr>requestCounts = snd (rateLimiter (ip req) now (requestCounts s)),
        cache = cache_set (cache s) (cacheKey_of (route req)) d t\<rparr>,
       [CacheGet (cacheKey_of (route req)), UpstreamGet (upstream_req_of (route req)),
        CacheSet (cacheKey_of (route req)) d])"
    using assms by (simp add: serve_admitted handler_eq)
qed

lemma after_list_eq:
  "after_list =
      \<lparr>requestCounts = Map.empty(''10.0.0.1'' \<mapsto> [0]),
       cache = cache_set Map.empty ''cryptocurrencies'' (JArr []) 10\<rparr>"
proof -
  have adm: "fst (rateLimiter (ip list_req) 0 (requestCounts init)) = Next"
    by (rule init_admits)
  have miss: "if_truthy (cache_get (cache init) (cacheKey_of (route list_req)) 0) = None"
    by (simp add: init_def cache_get_def if_truthy_def)
  have f: "fetched (route list_req) upstream_example = (Inr (JArr []), 10)"
    by (simp add: fetched_def list_req_def upstream_example_def)
  have "after_list =
      \<lparr>requestCounts = snd (rateLimiter (ip list_req) 0 (requestCounts init)),
       cache = cache_set (cache init) (cacheKey_of (route list_req)) (JArr []) 10\<rparr>"
    unfolding after_list_def serve_miss_ok[OF adm miss f] by simp
  then show ?thesis
    by (simp add: rateLimiter_eq Let_def window_def init_def list_req_def cacheKey_of_def)
qed

text \<open>
  The asset list, once cached, is served from the cache although the upstream is down.
\<close>

theorem cache_first_witness:
  "fst (rateLimiter (ip list_req) 20 (requestCounts after_list)) = Next \<and>
   cache_get (cache after_list) (cacheKey_of (route list_req)) 20 = Some (JArr []) \<and>
   truthy (JArr []) \<and>
   fst (serve upstream_500 20 list_req after_list) = res_json (JArr []) \<and>
   cache (fst (snd (serve upstream_500 20 list_req after_list))) = cache after_list \<and>
   snd (snd (serve upstream_500 20 list_req after_list)) = [CacheGet ''cryptocurrencies'']"
proof -
  have adm: "fst (rateLimiter (ip list_req) 20 (requestCounts after_list)) = Next"
    by (simp add: after_list_eq rateLimiter_eq window_def list_req_def Let_def)
  have hit: "cache_get (cache after_list) (cacheKey_of (route list_req)) 20 = Some (JArr [])"
    by (simp add: after_list_eq cacheKey_of_def list_req_def cache_get_def cache_set_def
          stdTTL_def)
  have "serve upstream_500 20 list_req after_list =
      (res_json (JArr []),
       after_list\<lparr>requestCounts := snd (rateLimiter (ip list_req) 20 (requestCounts after_list))\<rparr>,
       [CacheGet (cacheKey_of (route list_req))])"
    using cache_first[OF adm, of upstream_500] hit by simp
  then show ?thesis using adm hit by (simp add: cacheKey_of_def list_req_def)
qed

section \<open>The history endpoint: colliding keys and short volume series\<close>

lemma example_transform:
  "transform example_chart =
     Inr [\<lparr>time = ''2023-11-16'', open_price = 10, high = 12, low = 10, close = 12, volume = 150\<rparr>,
          \<lparr>time = ''2023-11-17'', open_price = 12, high = 12, low = 9, close = 9, volume = 80\<rparr>]"
proof -
  have "transform example_chart =
      Inr (map (spec_candle (prices example_chart) (total_volumes example_chart))
             [1..<length (prices example_chart)])"
    using candlestick_loop_ok[of "prices example_chart" "total_volumes example_chart" 0 "[]"]
    by (simp add: transform_def example_chart_def valid_time_def maxTime_def)
  moreover have "[1..<length (prices example_chart)] = [1, 2]"
    by (simp add: example_chart_def upt_rec)
  ultimately show ?thesis
    by (simp add: spec_candle_def example_chart_def example_dates)
qed

lemma cacheKey_of_History:
  "cacheKey_of (History coin_id dq) = history_key coin_id (days_of dq)"
  by (simp add: cacheKey_of_def days_of_def)

text \<open>
  Claim C9. The cache key of the history endpoint, \<open>"history_" + id + "_" + days\<close>, is
  not injective: the asset \<open>a_b\<close> with days \<open>7\<close> and the asset \<open>a\<close> with days \<open>b_7\<close> have the
  same key. Whenever two history requests have the same key and the first one, admitted
  on a cache miss, populates the cache with its candlesticks, an admitted second request
  less than 300 seconds after the entry was stored is answered with the first request's
  candlesticks and makes no upstream call.
\<close>

theorem history_key_collision:
  "history_key ''a_b'' ''7'' = history_key ''a'' ''b_7'' \<and>
   \<not> inj (\<lambda>(coin_id, days). history_key coin_id days) \<and>
   (history_key id1 (days_of dq1) = history_key id2 (days_of dq2) \<and>
    fst (rateLimiter c1 now1 (requestCounts s)) = Next \<and>
    if_truthy (cache_get (cache s) (history_key id1 (days_of dq1)) now1) = None \<and>
    get_chart up1 (market_chart_req id1 (days_of dq1)) = (Inr d, t) \<and>
    transform d = Inr cs \<and>
    s1 = fst (snd (serve up1 now1 \<lparr>ip = c1, route = History id1 dq1\<rparr> s)) \<and>
    fst (rateLimiter c2 now2 (requestCounts s1)) = Next \<and> now2 - t < 300 * 1000 \<longrightarrow>
      fst (serve up1 now1 \<lparr>ip = c1, route = History id1 dq1\<rparr> s) =
        res_json (JArr (map candle_json cs)) \<and>
      fst (serve up2 now2 \<lparr>ip = c2, route = History id2 dq2\<rparr> s1) =
        res_json (JArr (map candle_json cs)) \<and>
      snd (snd (serve up2 now2 \<lparr>ip = c2, route = History id2 dq2\<rparr> s1)) =
        [CacheGet (history_key id2 (days_of dq2))])"
proof (intro conjI impI)
  show k: "history_key ''a_b'' ''7'' = history_key ''a'' ''b_7''"
    by (simp add: history_key_def)
  show "\<not> inj (\<lambda>(coin_id, days). history_key coin_id days)"
  proof
    assume "inj (\<lambda>(coin_id, days). history_key coin_id days)"
    then have "(''a_b'', ''7'') = (''a'', ''b_7'')"
      using k by (auto dest!: injD[where x = "(''a_b'', ''7'')" and y = "(''a'', ''b_7'')"])
    then show False by simp
  qed
next
  assume a: "history_key id1 (days_of dq1) = history_key id2 (days_of dq2) \<and>
    fst (rateLimiter c1 now1 (requestCounts s)) = Next \<and>
    if_truthy (cache_get (cache s) (history_key id1 (days_of dq1)) now1) = None \<and>
    get_chart up1 (market_chart_req id1 (days_of dq1)) = (Inr d, t) \<and>
    transform d = Inr cs \<and>
    s1 = fst (snd (serve up1 now1 \<lparr>ip = c1, route = History id1 dq1\<rparr> s)) \<and>
    fst (rateLimiter c2 now2 (requestCounts s1)) = Next \<and> now2 - t < 300 * 1000"
  then have keq: "history_key id1 (days_of dq1) = history_key id2 (days_of dq2)"
    and adm1: "fst (rateLimiter c1 now1 (requestCounts s)) = Next"
    and miss: "if_truthy (cache_get (cache s) (history_key id1 (days_of dq1)) now1) = None"
    and chart: "get_chart up1 (market_chart_req id1 (days_of dq1)) = (Inr d, t)"
    and tr: "transform d = Inr cs"
    and s1: "s1 = fst (snd (serve up1 now1 \<lparr>ip = c1, route = History id1 dq1\<rparr> s))"
    and adm2: "fst (rateLimiter c2 now2 (requestCounts s1)) = Next"
    and fresh: "now2 - t < 300 * 1000"
    by blast+
  let ?r1 = "\<lparr>ip = c1, route = History id1 dq1\<rparr>"
  let ?r2 = "\<lparr>ip = c2, route = History id2 dq2\<rparr>"
  let ?out = "JArr (map candle_json cs)"
  have f: "fetched (route ?r1) up1 = (Inr ?out, t)"
    using chart tr by (simp add: fetched_def upstream_req_of_def)
  have adm1': "fst (rateLimiter (ip ?r1) now1 (requestCounts s)) = Next"
    using adm1 by simp
  have miss': "if_truthy (cache_get (cache s) (cacheKey_of (route ?r1)) now1) = None"
    using miss by (simp add: cacheKey_of_History)
  note first = serve_miss_ok[OF adm1' miss' f]
  have c1: "cache s1 = cache_set (cache s) (history_key id1 (days_of dq1)) ?out t"
    unfolding s1 first by (simp add: cacheKey_of_History)
  have "cache_get (cache s1) (cacheKey_of (route ?r2)) now2 = Some ?out"
    using fresh unfolding c1 keq by (simp add: cacheKey_of_History cache_get_set_same)
  then have hit: "if_truthy (cache_get (cache s1) (cacheKey_of (route ?r2)) now2) = Some ?out"
    by (simp add: if_truthy_def)
  have adm2': "fst (rateLimiter (ip ?r2) now2 (requestCounts s1)) = Next"
    using adm2 by simp
  note second = serve_hit[OF adm2' hit]
  show "fst (serve up1 now1 ?r1 s) = res_json ?out" by (simp add: first)
  show "fst (serve up2 now2 ?r2 s1) = res_json ?out" by (simp add: second)
  show "snd (snd (serve up2 now2 ?r2 s1)) = [CacheGet (history_key id2 (days_of dq2))]"
    by (simp add: second cacheKey_of_History)
qed

text \<open>
  The history of \<open>a_b\<close> over \<open>7\<close> days is fetched and cached; the request for \<open>a\<close> over
  \<open>b_7\<close> days, made while the upstream is down, gets the same candlesticks.
\<close>

theorem history_key_collision_witness:
  "history_key ''a_b'' ''7'' = history_key ''a'' ''b_7'' \<and>
   fst (serve upstream_example 0 (history_req ''10.0.0.1'' ''a_b'' ''7'') init) =
     res_json (JArr (map candle_json
       [\<lparr>time = ''2023-11-16'', open_price = 10, high = 12, low = 10, close = 12, volume = 150\<rparr>,
        \<lparr>time = ''2023-11-17'', open_price = 12, high = 12, low = 9, close = 9, volume = 80\<rparr>])) \<and>
   fst (serve upstream_500 20 (history_req ''10.0.0.2'' ''a'' ''b_7'') after_history) =
     fst (serve upstream_example 0 (history_req ''10.0.0.1'' ''a_b'' ''7'') init) \<and>
   snd (snd (serve upstream_500 20 (history_req ''10.0.0.2'' ''a'' ''b_7'') after_history)) =
     [CacheGet ''history_a_b_7'']"
proof -
  let ?cs = "[\<lparr>time = ''2023-11-16'', open_price = 10, high = 12, low = 10, close = 12, volume = 150\<rparr>,
        \<lparr>time = ''2023-11-17'', open_price = 12, high = 12, low = 9, close = 9, volume = 80\<rparr>]"
  have k: "history_key ''a_b'' (days_of (Some ''7'')) = history_key ''a'' (days_of (Some ''b_7''))"
    by (simp add: history_key_def days_of_def)
  have h1: "fst (rateLimiter ''10.0.0.1'' 0 (requestCounts init)) = Next"
    by (rule init_admits)
  have h2: "if_truthy (cache_get (cache init) (history_key ''a_b'' (days_of (Some ''7''))) 0) = None"
    by (simp add: init_def cache_get_def if_truthy_def)
  have h3: "get_chart upstream_example (market_chart_req ''a_b'' (days_of (Some ''7''))) =
      (Inr example_chart, 10)"
    by (simp add: upstream_example_def)
  have h4: "after_history =
      fst (snd (serve upstream_example 0 \<lparr>ip = ''10.0.0.1'', route = History ''a_b'' (Some ''7'')\<rparr> init))"
    by (simp add: after_history_def history_req_def)
  have rc: "requestCounts after_history = snd (rateLimiter ''10.0.0.1'' 0 (requestCounts init))"
    unfolding h4 using h1 by (simp add: serve_admitted split: prod.splits)
  have h5: "fst (rateLimiter ''10.0.0.2'' 20 (requestCounts after_history)) = Next"
    by (simp add: rc rateLimiter_eq Let_def window_def init_def)
  have h6: "(20::int) - 10 < 300 * 1000" by simp
  show ?thesis
    using history_key_collision[of "''a_b''" "Some ''7''" "''a''" "Some ''b_7''" "''10.0.0.1''" 0
        init upstream_example example_chart 10 ?cs after_history "''10.0.0.2''" 20 upstream_500]
      k h1 h2 h3 example_transform h4 h5 h6
    by (simp add: history_req_def history_key_def days_of_def)
qed

text \<open>The four ways one iteration of the loop goes, and what follows for short series.\<close>

lemma candlestick_loop_done:
  "\<not> i < length ps \<Longrightarrow> candlestick_loop i ps vs acc = Inr acc"
  by (subst candlestick_loop.simps) simp

lemma candlestick_loop_invalid:
  "i < length ps \<Longrightarrow> isoDate (fst (ps ! i)) = None \<Longrightarrow>
   candlestick_loop i ps vs acc = Inl invalid_time_error"
  by (subst candlestick_loop.simps) simp

lemma candlestick_loop_undefined:
  "i < length ps \<Longrightarrow> isoDate (fst (ps ! i)) = Some ts \<Longrightarrow> \<not> i < length vs \<Longrightarrow>
   candlestick_loop i ps vs acc = Inl undefined_read_error"
  by (subst candlestick_loop.simps) simp

lemma errors_differ: "invalid_time_error \<noteq> undefined_read_error"
  by (simp add: invalid_time_error_def undefined_read_error_def)

lemma candlestick_loop_short:
  assumes "length vs < length ps" and "i \<le> length vs"
  shows "candlestick_loop i ps vs acc = Inl invalid_time_error \<or>
         candlestick_loop i ps vs acc = Inl undefined_read_error"
  using assms
proof (induction i ps vs acc rule: candlestick_loop.induct)
  case (1 i ps vs acc)
  have lt: "i < length ps" using "1.prems" by simp
  show ?case
  proof (cases "isoDate (fst (ps ! i))")
    case None
    then show ?thesis using lt by (subst candlestick_loop.simps) simp
  next
    case (Some ts)
    show ?thesis
    proof (cases "i < length vs")
      case False
      then show ?thesis using lt Some
        by (subst (1 2) candlestick_loop.simps) simp
    next
      case True
      then have "Suc i \<le> length vs" by simp
      then have "candlestick_loop (i + 1) ps vs
            (if 0 < i
             then let prevPrice = snd (ps ! (i - 1))
                  in acc @ [\<lparr>time = ts, open_price = prevPrice,
                             high = max prevPrice (snd (ps ! i)),
                             low = min prevPrice (snd (ps ! i)),
                             close = snd (ps ! i), volume = snd (vs ! i)\<rparr>]
             else acc) = Inl invalid_time_error \<or>
          candlestick_loop (i + 1) ps vs
            (if 0 < i
             then let prevPrice = snd (ps ! (i - 1))
                  in acc @ [\<lparr>time = ts, open_price = prevPrice,
                             high = max prevPrice (snd (ps ! i)),
                             low = min prevPrice (snd (ps ! i)),
                             close = snd (ps ! i), volume = snd (vs ! i)\<rparr>]
             else acc) = Inl undefined_read_error"
        using "1.IH"[OF lt Some True refl refl "1.prems"(1)] by simp
      then show ?thesis using lt Some True
        by (subst (1 2) candlestick_loop.simps) (simp add: Let_def)
    qed
  qed
qed

lemma candlestick_loop_short_valid:
  assumes "length vs < length ps" and "i \<le> length vs"
    and "\<forall>p\<in>set ps. valid_time (fst p)"
  shows "candlestick_loop i ps vs acc = Inl undefined_read_error"
  using assms
proof (induction i ps vs acc rule: candlestick_loop.induct)
  case (1 i ps vs acc)
  have lt: "i < length ps" using "1.prems" by simp
  then have d: "isoDate (fst (ps ! i)) = Some (date_string (fst (ps ! i)))"
    using "1.prems"(3) by (simp add: isoDate_def)
  show ?case
  proof (cases "i < length vs")
    case False
    then show ?thesis using lt d by (simp add: candlestick_loop_undefined)
  next
    case True
    then have "Suc i \<le> length vs" by simp
    then show ?thesis
      using "1.IH"[OF lt d True refl refl "1.prems"(1) _ "1.prems"(3)] lt d True
      by (subst candlestick_loop.simps) (simp add: Let_def)
  qed
qed

lemma candlestick_loop_in_bounds:
  assumes "length ps \<le> length vs"
  shows "candlestick_loop i ps vs acc \<noteq> Inl undefined_read_error"
  using assms
proof (induction i ps vs acc rule: candlestick_loop.induct)
  case (1 i ps vs acc)
  show ?case
  proof (cases "i < length ps")
    case False
    then show ?thesis by (simp add: candlestick_loop_done)
  next
    case lt: True
    then have v: "i < length vs" using "1.prems" by simp
    show ?thesis
    proof (cases "isoDate (fst (ps ! i))")
      case None
      then show ?thesis using lt errors_differ by (simp add: candlestick_loop_invalid)
    next
      case (Some ts)
      show ?thesis
        using "1.IH"[OF lt Some v refl refl "1.prems"] lt Some v
        by (subst candlestick_loop.simps) (simp add: Let_def)
    qed
  qed
qed

text \<open>
  Claim C10. The transform reads \<open>volumes[i]\<close> at every index of the price series with no
  length guard. When the volume series is shorter than the price series the transform
  throws (the TypeError of the read, when all timestamps are dates), and an admitted
  history request that misses the cache and gets such a response is answered with
  status 500 and the body \<open>{error: "Failed to fetch historical price data", details}\<close>,
  nothing is cached and no candlestick array is returned. When the volume series is at
  least as long as the price series, that TypeError does not occur.
\<close>

theorem short_volumes_fail:
  "(length (total_volumes d) < length (prices d) \<longrightarrow>
      (\<exists>e. transform d = Inl e \<and> response e = None) \<and>
      ((\<forall>p\<in>set (prices d). valid_time (fst p)) \<longrightarrow> transform d = Inl undefined_read_error) \<and>
      (fst (rateLimiter c now (requestCounts s)) = Next \<and>
       if_truthy (cache_get (cache s) (history_key coin_id (days_of dq)) now) = None \<and>
       get_chart up (market_chart_req coin_id (days_of dq)) = (Inr d, t) \<longrightarrow>
         (\<exists>m. fst (serve up now \<lparr>ip = c, route = History coin_id dq\<rparr> s) =
                \<lparr>res_status = 500,
                 res_body = JObj [(''error'', JStr ''Failed to fetch historical price data''),
                                  (''details'', JStr m)]\<rparr>) \<and>
         cache (fst (snd (serve up now \<lparr>ip = c, route = History coin_id dq\<rparr> s))) = cache s \<and>
         filter is_cache_write (snd (snd (serve up now \<lparr>ip = c, route = History coin_id dq\<rparr> s))) = [])) \<and>
   (length (prices d) \<le> length (total_volumes d) \<longrightarrow> transform d \<noteq> Inl undefined_read_error)"
proof (intro conjI impI)
  assume short: "length (total_volumes d) < length (prices d)"
  have two: "transform d = Inl invalid_time_error \<or> transform d = Inl undefined_read_error"
    using candlestick_loop_short[OF short, of 0 "[]"] by (simp add: transform_def)
  then obtain e where e: "transform d = Inl e" "response e = None"
    by (auto simp: invalid_time_error_def undefined_read_error_def)
  show "\<exists>e. transform d = Inl e \<and> response e = None" using e by blast
  show "transform d = Inl undefined_read_error" if "\<forall>p\<in>set (prices d). valid_time (fst p)"
    using candlestick_loop_short_valid[OF short _ that, of 0 "[]"] by (simp add: transform_def)
  assume a: "fst (rateLimiter c now (requestCounts s)) = Next \<and>
       if_truthy (cache_get (cache s) (history_key coin_id (days_of dq)) now) = None \<and>
       get_chart up (market_chart_req coin_id (days_of dq)) = (Inr d, t)"
  let ?req = "\<lparr>ip = c, route = History coin_id dq\<rparr>"
  have f: "fetched (route ?req) up = (Inl e, t)"
    using a e by (simp add: fetched_def upstream_req_of_def)
  have s: "serve up now ?req s =
      (catch_response (failure_message (route ?req)) e,
       \<lparr>requestCounts = snd (rateLimiter (ip ?req) now (requestCounts s)), cache = cache s\<rparr>,
       [CacheGet (cacheKey_of (route ?req)), UpstreamGet (upstream_req_of (route ?req))])"
    using a by (intro serve_miss_fail[OF _ _ f]) (simp_all add: cacheKey_of_History)
  show "\<exists>m. fst (serve up now ?req s) =
                \<lparr>res_status = 500,
                 res_body = JObj [(''error'', JStr ''Failed to fetch historical price data''),
                                  (''details'', JStr m)]\<rparr>"
    using e(2) by (simp add: s catch_response_def failure_message_def)
  show "cache (fst (snd (serve up now ?req s))) = cache s" by (simp add: s)
  show "filter is_cache_write (snd (snd (serve up now ?req s))) = []" by (simp add: s)
next
  assume "length (prices d) \<le> length (total_volumes d)"
  then show "transform d \<noteq> Inl undefined_read_error"
    using candlestick_loop_in_bounds[of "prices d" "total_volumes d" 0 "[]"]
    by (simp add: transform_def)
qed

text \<open>
  Three prices with two volumes: the read of \<open>volumes[2]\<close> throws and the answer is 500.
\<close>

theorem short_volumes_fail_witness:
  "length (total_volumes short_chart) < length (prices short_chart) \<and>
   transform short_chart = Inl undefined_read_error \<and>
   fst (serve upstream_short 0 \<lparr>ip = ''10.0.0.1'', route = History ''bitcoin'' None\<rparr> init) =
     \<lparr>res_status = 500,
      res_body = JObj [(''error'', JStr ''Failed to fetch historical price data''),
                       (''details'', JStr ''Cannot read properties of undefined (reading '1')'')]\<rparr> \<and>
   cache (fst (snd (serve upstream_short 0 \<lparr>ip = ''10.0.0.1'', route = History ''bitcoin'' None\<rparr> init))) =
     Map.empty"
proof -
  let ?req = "\<lparr>ip = ''10.0.0.1'', route = History ''bitcoin'' None\<rparr>"
  have h1: "length (total_volumes short_chart) < length (prices short_chart)"
    by (simp add: short_chart_def)
  have h2: "\<forall>p\<in>set (prices short_chart). valid_time (fst p)"
    by (simp add: short_chart_def valid_time_def maxTime_def)
  have h3: "fst (rateLimiter ''10.0.0.1'' 0 (requestCounts init)) = Next"
    by (rule init_admits)
  have h4: "if_truthy (cache_get (cache init) (history_key ''bitcoin'' (days_of None)) 0) = None"
    by (simp add: init_def cache_get_def if_truthy_def)
  have h5: "get_chart upstream_short (market_chart_req ''bitcoin'' (days_of None)) = (Inr short_chart, 10)"
    by (simp add: upstream_short_def)
  note th = short_volumes_fail[of short_chart "''10.0.0.1''" 0 init "''bitcoin''" None upstream_short 10]
  have t: "transform short_chart = Inl undefined_read_error"
    using th h1 h2 by blast
  obtain m where m: "fst (serve upstream_short 0 ?req init) =
       \<lparr>res_status = 500,
        res_body = JObj [(''error'', JStr ''Failed to fetch historical price data''),
                         (''details'', JStr m)]\<rparr>"
    and c: "cache (fst (snd (serve upstream_short 0 ?req init))) = cache init"
    using th h1 h3 h4 h5 by blast
  have f: "fetched (route ?req) upstream_short = (Inl undefined_read_error, 10)"
    using t by (simp add: fetched_def upstream_req_of_def upstream_short_def)
  have "serve upstream_short 0 ?req init =
      (catch_response (failure_message (route ?req)) undefined_read_error,
       \<lparr>requestCounts = snd (rateLimiter (ip ?req) 0 (requestCounts init)), cache = cache init\<rparr>,
       [CacheGet (cacheKey_of (route ?req)), UpstreamGet (upstream_req_of (route ?req))])"
    using h3 h4 by (intro serve_miss_fail[OF _ _ f]) (simp_all add: cacheKey_of_History)
  then have "m = ''Cannot read properties of undefined (reading '1')''"
    using m by (simp add: catch_response_def undefined_read_error_def)
  then show ?thesis using h1 t m c by (simp add: init_def)
qed

section \<open>Timestamps beyond the range of dates\<close>

lemma far_chart_transform: "transform far_chart = Inl invalid_time_error"
  by code_simp

text \<open>
  Claim C1 as it is written fails for a timestamp that is not a date. The loop formats
  the date of every price point with \<open>toISOString\<close>, which throws a RangeError on a
  timestamp more than 8.64e15 ms from the epoch. For three price points with matching
  volumes, the second at 8640000000000001 ms, the transform emits no candles at all:
  it throws, the history route answers 500 and nothing is cached.
\<close>

theorem transform_invalid_time_counterexample:
  "prices far_chart \<noteq> [] \<and>
   length (total_volumes far_chart) = length (prices far_chart) \<and>
   transform far_chart = Inl invalid_time_error \<and>
   fst (serve upstream_far 0 \<lparr>ip = ''10.0.0.1'', route = History ''bitcoin'' None\<rparr> init) =
     \<lparr>res_status = 500,
      res_body = JObj [(''error'', JStr ''Failed to fetch historical price data''),
                       (''details'', JStr ''Invalid time value'')]\<rparr> \<and>
   cache (fst (snd (serve upstream_far 0 \<lparr>ip = ''10.0.0.1'', route = History ''bitcoin'' None\<rparr> init))) =
     Map.empty"
proof -
  let ?req = "\<lparr>ip = ''10.0.0.1'', route = History ''bitcoin'' None\<rparr>"
  have adm: "fst (rateLimiter (ip ?req) 0 (requestCounts init)) = Next"
    by (rule init_admits)
  have miss: "if_truthy (cache_get (cache init) (cacheKey_of (route ?req)) 0) = None"
    by (simp add: init_def cache_get_def if_truthy_def)
  have f: "fetched (route ?req) upstream_far = (Inl invalid_time_error, 10)"
    by (simp add: fetched_def upstream_req_of_def upstream_far_def far_chart_transform)
  note s = serve_miss_fail[OF adm miss f]
  have "fst (serve upstream_far 0 ?req init) =
     \<lparr>res_status = 500,
      res_body = JObj [(''error'', JStr ''Failed to fetch historical price data''),
                       (''details'', JStr ''Invalid time value'')]\<rparr>"
    unfolding s by (simp add: catch_response_def failure_message_def invalid_time_error_def)
  moreover have "cache (fst (snd (serve upstream_far 0 ?req init))) = Map.empty"
    unfolding s by (simp add: init_def)
  ultimately show ?thesis
    by (simp add: far_chart_transform) (simp add: far_chart_def)
qed

end
